theory Spec2Isabelle
  imports Complex_Main "HOL-Library.AList"
begin

section \<open>MCBS: a shallow embedding of mcbs.js\<close>

text \<open>
  The embedding follows the classes of \<^verbatim>\<open>src/mcbs.js\<close>: \<^verbatim>\<open>MinecraftBot\<close>,
  \<^verbatim>\<open>Inventory\<close>, \<^verbatim>\<open>World\<close>, \<^verbatim>\<open>EntityTracker\<close>, \<^verbatim>\<open>Physics\<close>,
  \<^verbatim>\<open>Crafting\<close> and \<^verbatim>\<open>Combat\<close>. Every handler and method is a function from the
  bot's state to its new state. What the code sends with \<^verbatim>\<open>client.write\<close> is appended to
  the log \<open>written\<close>, what it announces with \<^verbatim>\<open>emit\<close> to the log \<open>emitted\<close>; a
  \<^verbatim>\<open>throw\<close> is the \<open>Inl\<close> of a sum.

  JavaScript numbers that hold coordinates, angles and health are idealised as real numbers
  (no rounding, no NaN, no signed zero); numbers that hold counters, slots, identifiers and
  block types are integers.

  In the source the constructor of \<^verbatim>\<open>MinecraftBot\<close> creates the \<^verbatim>\<open>Inventory\<close>, the
  \<^verbatim>\<open>World\<close> and the \<^verbatim>\<open>EntityTracker\<close>, which register their handlers on
  \<^verbatim>\<open>bot.client\<close>, before \<^verbatim>\<open>_setupClient\<close> creates that client. The embedding is of
  the handlers and methods themselves: its initial state is the one in which all of them
  are registered on the client.
\<close>

subsection \<open>Numbers and vectors\<close>

type_synonym number = real

datatype vec3 = Vec3 (vx: number) (vy: number) (vz: number)

text \<open>
  Modelled from the spec: the \<^verbatim>\<open>vec3\<close> package is not under src/. The spec calls a position
  a "3D float vector", "mutated on move" events; \<open>offset\<close> and \<open>minus\<close> build a new vector,
  \<open>add\<close> and \<open>set\<close> change the receiver (here: return its new value), \<open>distanceTo\<close> is the
  Euclidean distance. The \<^verbatim>\<open>entity_move\<close> handler hands \<open>add\<close> three numbers; they are
  taken as the three components to add.
\<close>

definition vec3_offset :: "vec3 \<Rightarrow> number \<Rightarrow> number \<Rightarrow> number \<Rightarrow> vec3" where
  "vec3_offset v dx dy dz = Vec3 (vx v + dx) (vy v + dy) (vz v + dz)"

definition vec3_minus :: "vec3 \<Rightarrow> vec3 \<Rightarrow> vec3" where
  "vec3_minus a b = Vec3 (vx a - vx b) (vy a - vy b) (vz a - vz b)"

definition vec3_add :: "vec3 \<Rightarrow> vec3 \<Rightarrow> vec3" where
  "vec3_add a b = Vec3 (vx a + vx b) (vy a + vy b) (vz a + vz b)"

definition vec3_distanceTo :: "vec3 \<Rightarrow> vec3 \<Rightarrow> number" where
  "vec3_distanceTo a b =
     sqrt ((vx a - vx b) * (vx a - vx b) + (vy a - vy b) * (vy a - vy b)
           + (vz a - vz b) * (vz a - vz b))"

text \<open>\<^verbatim>\<open>Math.atan2\<close> on real numbers.\<close>

definition Math_atan2 :: "number \<Rightarrow> number \<Rightarrow> number" where
  "Math_atan2 b a =
     (if 0 < a then arctan (b / a)
      else if a < 0 then (if 0 \<le> b then arctan (b / a) + pi else arctan (b / a) - pi)
      else if 0 < b then pi / 2
      else if b < 0 then - (pi / 2)
      else 0)"

subsection \<open>What the client receives, what it is sent, what the bot emits\<close>

record item =
  item_name :: string
  item_id :: int
  item_count :: int

text \<open>The argument of \<^verbatim>\<open>findItem\<close>: an item name or an item id.\<close>

datatype item_key = ItemName string | ItemId int

type_synonym metadata = "int list"

text \<open>The packets the handlers are registered for, with the fields the handlers read.\<close>

datatype packet =
    P_connect
  | P_disconnect string
  | P_error string
  | P_position number number number number number bool
  | P_chat string string
  | P_entity_metadata int metadata
  | P_health number number number
  | P_block_change number number number int
  | P_window_items "item option list"
  | P_set_slot int "item option"
  | P_map_chunk int int
  | P_spawn_entity int string vec3 vec3 number number
  | P_spawn_player int string string vec3 number number
  | P_entity_destroy "int list"
  | P_entity_move int number number number

text \<open>The commands of \<^verbatim>\<open>client.write\<close> (and \<^verbatim>\<open>client.end\<close>), with their fields in the
  order of the source.\<close>

datatype command =
    W_chat string
  | W_look number number "bool option"
  | W_use_entity int int int
  | W_block_place vec3 int int number number number
  | W_block_dig int vec3 int
  | W_held_item_slot int
  | W_window_click int int int int int "item option"
  | W_close_window int
  | W_position number number number bool
  | W_end string

datatype event =
    E_connect
  | E_disconnect string
  | E_error string
  | E_position vec3
  | E_chat string string
  | E_health number number
  | E_death
  | E_blockUpdate vec3 int

datatype error =
    HotbarSlotRange
  | UnknownRecipe string
  | CraftingTableRequired
  | MissingIngredient string
  | NoCraftingTablePosition
  | TypeError

subsection \<open>The state of the classes\<close>

record inventory =
  slots :: "item option list"
  selectedSlot :: int

record world =
  blocks :: "vec3 \<rightharpoonup> int"
  chunkLoaded :: "(int \<times> int) set"

text \<open>
  An entity object. A player object has no \<open>type\<close> and no \<open>velocity\<close>, an entity object no
  \<open>uuid\<close> and no \<open>name\<close>; \<open>metadata\<close> is absent until the first update.
\<close>

record entity =
  ent_id :: int
  ent_type :: "string option"
  ent_uuid :: "string option"
  ent_name :: "string option"
  ent_position :: vec3
  ent_velocity :: "vec3 option"
  ent_yaw :: number
  ent_pitch :: number
  ent_metadata :: "metadata option"

text \<open>
  The two maps of the tracker hold references: a player's object is shared by
  \<open>players\<close> and \<open>entities\<close>, and the handlers change objects in place. Objects live in
  \<open>heap\<close>, a reference is an index into it, a new object is appended. The maps keep their
  keys in insertion order, as a JavaScript \<^verbatim>\<open>Map\<close> does.
\<close>

record entity_tracker =
  heap :: "entity list"
  entities :: "(int \<times> nat) list"
  players :: "(int \<times> nat) list"

record physics =
  gravity :: number
  jumpSpeed :: number
  jumpCooldown :: int

record ingredient =
  ing_item :: string
  ing_count :: int

record recipe =
  ingredients :: "ingredient list"
  result :: ingredient
  requiresCraftingTable :: bool

record crafting =
  recipes :: "string \<rightharpoonup> recipe"
  craftingTablePos :: "vec3 option"

record combat =
  target :: "nat option"
  attackCooldown :: int

text \<open>
  The bot. \<open>listeners\<close> are the \<^verbatim>\<open>onBlockBreak\<close> listeners of the pending
  \<^verbatim>\<open>mineBlock\<close> promises, in registration order, each with its promise and the
  coordinates it waits for; \<open>fulfilled\<close> are the promises resolved so far; \<open>dig_timers\<close>
  are the pending \<^verbatim>\<open>setTimeout\<close> callbacks of \<^verbatim>\<open>mineBlock\<close>, which all have the
  delay 1000 and so fire in the order they were set.
\<close>

record bot =
  is_connected :: bool
  position :: vec3
  velocity :: vec3
  yaw :: number
  pitch :: number
  onGround :: "bool option"
  health :: number
  food :: number
  foodSaturation :: "number option"
  gameMode :: int
  inventory :: inventory
  world :: world
  tracker :: entity_tracker
  physics :: physics
  crafting :: crafting
  combat :: combat
  written :: "command list"
  emitted :: "event list"
  listeners :: "(nat \<times> number \<times> number \<times> number) list"
  dig_timers :: "vec3 list"
  fulfilled :: "nat list"
  next_promise :: nat

definition client_write :: "command \<Rightarrow> bot \<Rightarrow> bot" where
  "client_write c s = s\<lparr>written := written s @ [c]\<rparr>"

definition bot_emit :: "event \<Rightarrow> bot \<Rightarrow> bot" where
  "bot_emit e s = s\<lparr>emitted := emitted s @ [e]\<rparr>"

subsection \<open>Inventory\<close>

text \<open>
  \<^verbatim>\<open>slots[i]\<close> reads \<^verbatim>\<open>undefined\<close> outside the array, and an assignment beyond its end
  extends the array with holes; a negative index is no array element. \<^verbatim>\<open>null\<close> and
  \<^verbatim>\<open>undefined\<close> are both \<open>None\<close>.
\<close>

definition slot_at :: "item option list \<Rightarrow> int \<Rightarrow> item option" where
  "slot_at xs i = (if 0 \<le> i \<and> nat i < length xs then xs ! nat i else None)"

definition slot_assign :: "item option list \<Rightarrow> int \<Rightarrow> item option \<Rightarrow> item option list" where
  "slot_assign xs i v =
     (if i < 0 then xs
      else if nat i < length xs then xs[nat i := v]
      else xs @ replicate (nat i - length xs) None @ [v])"

definition item_matches :: "item \<Rightarrow> item_key \<Rightarrow> bool" where
  "item_matches it k =
     (case k of ItemName n \<Rightarrow> item_name it = n | ItemId j \<Rightarrow> item_id it = j)"

text \<open>The loop of \<^verbatim>\<open>findItem\<close> from index \<open>i\<close> on: the first slot that matches.\<close>

fun findItem_from :: "item option list \<Rightarrow> item_key \<Rightarrow> nat \<Rightarrow> (item \<times> nat) option" where
  "findItem_from [] k i = None"
| "findItem_from (None # xs) k i = findItem_from xs k (Suc i)"
| "findItem_from (Some it # xs) k i =
     (if item_matches it k then Some (it, i) else findItem_from xs k (Suc i))"

definition findItem :: "inventory \<Rightarrow> item_key \<Rightarrow> (item \<times> nat) option" where
  "findItem iv k = findItem_from (slots iv) k 0"

definition selectSlot :: "int \<Rightarrow> bot \<Rightarrow> error + bot" where
  "selectSlot slot s =
     (if slot < 0 \<or> slot > 8 then Inl HotbarSlotRange
      else Inr (client_write (W_held_item_slot slot)
                  (s\<lparr>inventory := (inventory s)\<lparr>selectedSlot := slot\<rparr>\<rparr>)))"

definition moveItem :: "int \<Rightarrow> int \<Rightarrow> bot \<Rightarrow> bot" where
  "moveItem fromSlot toSlot s =
     client_write (W_window_click 0 toSlot 0 0 0 (slot_at (slots (inventory s)) fromSlot))
       (client_write (W_window_click 0 fromSlot 0 0 0 (slot_at (slots (inventory s)) fromSlot)) s)"

definition dropItem :: "int \<Rightarrow> bool \<Rightarrow> bot \<Rightarrow> bot" where
  "dropItem slot fullStack s =
     client_write (W_window_click 0 slot (if fullStack then 1 else 0) 4 4
                     (slot_at (slots (inventory s)) slot)) s"

subsection \<open>World\<close>

text \<open>The key \<^verbatim>\<open>`${x},${y},${z}`\<close> of the block map is the triple of coordinates.\<close>

definition setBlock :: "world \<Rightarrow> vec3 \<Rightarrow> int \<Rightarrow> world" where
  "setBlock w pos blockType = w\<lparr>blocks := (blocks w)(pos \<mapsto> blockType)\<rparr>"

definition getBlock :: "world \<Rightarrow> vec3 \<Rightarrow> int" where
  "getBlock w pos = (case blocks w pos of None \<Rightarrow> 0 | Some b \<Rightarrow> b)"

definition getDigTime :: "world \<Rightarrow> vec3 \<Rightarrow> nat" where
  "getDigTime w pos = 1000"

definition isWalkable :: "world \<Rightarrow> vec3 \<Rightarrow> bool" where
  "isWalkable w pos =
     (getBlock w pos = 0 \<and> getBlock w (vec3_offset pos 0 1 0) = 0
      \<and> getBlock w (vec3_offset pos 0 (- 1) 0) \<noteq> 0)"

subsection \<open>EntityTracker\<close>

text \<open>
  \<^verbatim>\<open>Map.set\<close> keeps the place of a key it already holds and appends a new one:
  \<open>AList.update\<close>; \<^verbatim>\<open>Map.delete\<close> is \<open>AList.delete\<close>, \<^verbatim>\<open>Map.get\<close> is \<open>map_of\<close>.
  \<open>deref\<close> follows a reference; every reference the maps hold is to an object of the heap
  (lemma \<open>tracker_inv_run\<close>), so its \<open>None\<close> does not occur on them.
\<close>

definition deref :: "entity list \<Rightarrow> nat \<Rightarrow> entity option" where
  "deref h a = (if a < length h then Some (h ! a) else None)"

definition on_spawn_entity ::
  "int \<Rightarrow> string \<Rightarrow> vec3 \<Rightarrow> vec3 \<Rightarrow> number \<Rightarrow> number \<Rightarrow> entity_tracker \<Rightarrow> entity_tracker" where
  "on_spawn_entity entityId ty pos vel yw pt tr =
     tr\<lparr>heap := heap tr @
            [\<lparr>ent_id = entityId, ent_type = Some ty, ent_uuid = None, ent_name = None,
              ent_position = pos, ent_velocity = Some vel, ent_yaw = yw, ent_pitch = pt,
              ent_metadata = None\<rparr>],
        entities := AList.update entityId (length (heap tr)) (entities tr)\<rparr>"

definition on_spawn_player ::
  "int \<Rightarrow> string \<Rightarrow> string \<Rightarrow> vec3 \<Rightarrow> number \<Rightarrow> number \<Rightarrow> entity_tracker \<Rightarrow> entity_tracker" where
  "on_spawn_player entityId uuid nm pos yw pt tr =
     tr\<lparr>heap := heap tr @
            [\<lparr>ent_id = entityId, ent_type = None, ent_uuid = Some uuid, ent_name = Some nm,
              ent_position = pos, ent_velocity = None, ent_yaw = yw, ent_pitch = pt,
              ent_metadata = None\<rparr>],
        players := AList.update entityId (length (heap tr)) (players tr),
        entities := AList.update entityId (length (heap tr)) (entities tr)\<rparr>"

definition destroy_one :: "int \<Rightarrow> entity_tracker \<Rightarrow> entity_tracker" where
  "destroy_one entityId tr =
     tr\<lparr>entities := AList.delete entityId (entities tr),
        players := AList.delete entityId (players tr)\<rparr>"

fun on_entity_destroy :: "int list \<Rightarrow> entity_tracker \<Rightarrow> entity_tracker" where
  "on_entity_destroy [] tr = tr"
| "on_entity_destroy (entityId # entityIds) tr = on_entity_destroy entityIds (destroy_one entityId tr)"

definition on_entity_move ::
  "int \<Rightarrow> number \<Rightarrow> number \<Rightarrow> number \<Rightarrow> entity_tracker \<Rightarrow> entity_tracker" where
  "on_entity_move entityId dX dY dZ tr =
     (case map_of (entities tr) entityId of
        None \<Rightarrow> tr
      | Some a \<Rightarrow>
          (case deref (heap tr) a of
             None \<Rightarrow> tr
           | Some e \<Rightarrow>
               tr\<lparr>heap := (heap tr)
                 [a := e\<lparr>ent_position :=
                          vec3_add (ent_position e) (Vec3 (dX / 32) (dY / 32) (dZ / 32))\<rparr>]\<rparr>))"

definition updateMetadata :: "int \<Rightarrow> metadata \<Rightarrow> entity_tracker \<Rightarrow> entity_tracker" where
  "updateMetadata entityId md tr =
     (case map_of (entities tr) entityId of
        None \<Rightarrow> tr
      | Some a \<Rightarrow>
          (case deref (heap tr) a of
             None \<Rightarrow> tr
           | Some e \<Rightarrow> tr\<lparr>heap := (heap tr)[a := e\<lparr>ent_metadata := Some md\<rparr>]\<rparr>))"

text \<open>
  The loop of \<^verbatim>\<open>findNearestEntity\<close> over the values of the map, in insertion order, with
  the candidate and its distance so far. The distance \<open>None\<close> is \<^verbatim>\<open>Infinity\<close>, the default
  of \<^verbatim>\<open>maxDistance\<close>. With \<open>types = None\<close> the loop is that of \<^verbatim>\<open>findNearestPlayer\<close>,
  which has no test of the type.
\<close>

definition less_dist :: "number \<Rightarrow> number option \<Rightarrow> bool" where
  "less_dist d bound = (case bound of None \<Rightarrow> True | Some b \<Rightarrow> d < b)"

fun nearest_loop ::
  "entity list \<Rightarrow> vec3 \<Rightarrow> string list option \<Rightarrow> nat list \<Rightarrow> nat option \<Rightarrow> number option \<Rightarrow> nat option"
  where
  "nearest_loop h p types [] nearest nearestDistance = nearest"
| "nearest_loop h p types (a # as) nearest nearestDistance =
     (case deref h a of
        None \<Rightarrow> nearest_loop h p types as nearest nearestDistance
      | Some e \<Rightarrow>
          (if (case types of None \<Rightarrow> False
               | Some ts \<Rightarrow> (case ent_type e of None \<Rightarrow> True | Some ty \<Rightarrow> ty \<notin> set ts))
           then nearest_loop h p types as nearest nearestDistance
           else if less_dist (vec3_distanceTo (ent_position e) p) nearestDistance
           then nearest_loop h p types as (Some a) (Some (vec3_distanceTo (ent_position e) p))
           else nearest_loop h p types as nearest nearestDistance))"

definition findNearestEntity :: "string list \<Rightarrow> number option \<Rightarrow> bot \<Rightarrow> nat option" where
  "findNearestEntity types maxDistance s =
     nearest_loop (heap (tracker s)) (position s) (Some types)
       (map snd (entities (tracker s))) None maxDistance"

definition findNearestPlayer :: "number option \<Rightarrow> bot \<Rightarrow> nat option" where
  "findNearestPlayer maxDistance s =
     nearest_loop (heap (tracker s)) (position s) None
       (map snd (players (tracker s))) None maxDistance"

subsection \<open>MinecraftBot: the methods\<close>

definition chat :: "string \<Rightarrow> bot \<Rightarrow> bot" where
  "chat message s = client_write (W_chat message) s"

definition lookAt :: "number \<Rightarrow> number \<Rightarrow> number \<Rightarrow> bot \<Rightarrow> bot" where
  "lookAt x y z s =
     (let delta = vec3_minus (Vec3 x y z) (position s);
          yw = Math_atan2 (- vx delta) (- vz delta);
          groundDistance = sqrt (vx delta * vx delta + vz delta * vz delta);
          pt = Math_atan2 (vy delta) groundDistance
      in client_write (W_look yw pt (onGround s)) (s\<lparr>yaw := yw, pitch := pt\<rparr>))"

definition attack :: "int \<Rightarrow> bot \<Rightarrow> bot" where
  "attack entityId s = client_write (W_use_entity entityId 1 0) s"

definition placeBlock :: "number \<Rightarrow> number \<Rightarrow> number \<Rightarrow> int \<Rightarrow> bot \<Rightarrow> bot" where
  "placeBlock x y z face s =
     client_write (W_block_place (Vec3 x y z) face 0 (1 / 2) (1 / 2) (1 / 2)) s"

text \<open>
  \<^verbatim>\<open>mineBlock\<close> sends the start of the dig, registers its listener and sets its timer;
  the result is the new promise. When the timer fires, the end of the dig is sent, whether
  or not the promise is resolved.
\<close>

definition mineBlock :: "number \<Rightarrow> number \<Rightarrow> number \<Rightarrow> bot \<Rightarrow> nat \<times> bot" where
  "mineBlock x y z s =
     (next_promise s,
      (client_write (W_block_dig 0 (Vec3 x y z) 1) s)
        \<lparr>listeners := listeners s @ [(next_promise s, x, y, z)],
         dig_timers := dig_timers s @ [Vec3 x y z],
         next_promise := Suc (next_promise s)\<rparr>)"

definition dig_timeout :: "bot \<Rightarrow> bot" where
  "dig_timeout s =
     (case dig_timers s of
        [] \<Rightarrow> s
      | pos # rest \<Rightarrow> client_write (W_block_dig 2 pos 1) (s\<lparr>dig_timers := rest\<rparr>))"

definition disconnect :: "string \<Rightarrow> bot \<Rightarrow> bot" where
  "disconnect reason s = (if is_connected s then client_write (W_end reason) s else s)"

text \<open>
  \<^verbatim>\<open>emit('blockUpdate', pos, block)\<close> calls every \<^verbatim>\<open>onBlockBreak\<close> listener; one
  whose coordinates are those of \<open>pos\<close> removes itself and resolves its promise. The
  listener reads \<open>pos\<close> only.
\<close>

definition listens_for :: "vec3 \<Rightarrow> nat \<times> number \<times> number \<times> number \<Rightarrow> bool" where
  "listens_for pos l = (case l of (p, x, y, z) \<Rightarrow> vx pos = x \<and> vy pos = y \<and> vz pos = z)"

definition emit_blockUpdate :: "vec3 \<Rightarrow> int \<Rightarrow> bot \<Rightarrow> bot" where
  "emit_blockUpdate pos block s =
     (bot_emit (E_blockUpdate pos block) s)
       \<lparr>listeners := filter (\<lambda>l. \<not> listens_for pos l) (listeners s),
        fulfilled := fulfilled s @ map fst (filter (listens_for pos) (listeners s))\<rparr>"

text \<open>A promise of \<^verbatim>\<open>mineBlock\<close> is pending until its listener resolves it; nothing
  rejects it.\<close>

datatype promise_state = Pending | Fulfilled

definition promise_state :: "bot \<Rightarrow> nat \<Rightarrow> promise_state" where
  "promise_state s p = (if p \<in> set (fulfilled s) then Fulfilled else Pending)"

subsection \<open>Physics\<close>

definition isOnGround :: "bot \<Rightarrow> bool" where
  "isOnGround s = (getBlock (world s) (vec3_offset (position s) 0 (- (1 / 10)) 0) \<noteq> 0)"

definition sendPositionUpdate :: "bot \<Rightarrow> bot" where
  "sendPositionUpdate s =
     client_write (W_position (vx (position s)) (vy (position s)) (vz (position s))
                     (isOnGround s)) s"

definition Physics_update :: "bot \<Rightarrow> bot" where
  "Physics_update s =
     (if \<not> is_connected s then s
      else
        let s1 = (if \<not> isOnGround s
                  then s\<lparr>velocity := Vec3 (vx (velocity s))
                                          (vy (velocity s) + gravity (physics s))
                                          (vz (velocity s))\<rparr>
                  else if vy (velocity s) < 0
                  then s\<lparr>velocity := Vec3 (vx (velocity s)) 0 (vz (velocity s))\<rparr>
                  else s);
            s2 = s1\<lparr>position := vec3_add (position s1) (velocity s1)\<rparr>;
            s3 = (if jumpCooldown (physics s2) > 0
                  then s2\<lparr>physics := (physics s2)\<lparr>jumpCooldown := jumpCooldown (physics s2) - 1\<rparr>\<rparr>
                  else s2)
        in sendPositionUpdate s3)"

definition jump :: "bot \<Rightarrow> bot" where
  "jump s =
     (if isOnGround s \<and> jumpCooldown (physics s) = 0
      then s\<lparr>velocity := Vec3 (vx (velocity s)) (jumpSpeed (physics s)) (vz (velocity s)),
             physics := (physics s)\<lparr>jumpCooldown := 10\<rparr>\<rparr>
      else s)"

definition move :: "number \<Rightarrow> number \<Rightarrow> bool \<Rightarrow> bot \<Rightarrow> bot" where
  "move x z sprint s =
     (let speed = (if sprint then 13 / 100 else 1 / 10)
      in s\<lparr>velocity := Vec3 ((x * sin (yaw s) - z * cos (yaw s)) * speed)
                             (vy (velocity s))
                             ((z * sin (yaw s) + x * cos (yaw s)) * speed)\<rparr>)"

subsection \<open>Combat\<close>

text \<open>
  \<open>target\<close> is a reference to an entity object. \<^verbatim>\<open>_update\<close> reads the id of that object
  and looks the id up in the entity map.
\<close>

definition Combat_update :: "bot \<Rightarrow> bot" where
  "Combat_update s =
     (if \<not> is_connected s then s
      else
        (case target (combat s) of
           None \<Rightarrow> s
         | Some t \<Rightarrow>
             (case deref (heap (tracker s)) t of
                None \<Rightarrow> s
              | Some tgt \<Rightarrow>
                  (case map_of (entities (tracker s)) (ent_id tgt) of
                     None \<Rightarrow> s\<lparr>combat := (combat s)\<lparr>target := None\<rparr>\<rparr>
                   | Some a \<Rightarrow>
                       (case deref (heap (tracker s)) a of
                          None \<Rightarrow> s
                        | Some e \<Rightarrow>
                            (if vec3_distanceTo (ent_position e) (position s) > 3
                             then lookAt (vx (ent_position e)) (vy (ent_position e) + 1)
                                    (vz (ent_position e)) (move 0 1 True s)
                             else if attackCooldown (combat s) = 0
                             then (let s1 = attack (ent_id tgt) s
                                   in s1\<lparr>combat := (combat s1)\<lparr>attackCooldown := 10\<rparr>\<rparr>)
                             else s\<lparr>combat := (combat s)
                                      \<lparr>attackCooldown := attackCooldown (combat s) - 1\<rparr>\<rparr>))))))"

definition attackEntity :: "nat \<Rightarrow> bot \<Rightarrow> bot" where
  "attackEntity a s =
     (case deref (heap (tracker s)) a of
        None \<Rightarrow> s
      | Some e \<Rightarrow>
          attack (ent_id e)
            (lookAt (vx (ent_position e)) (vy (ent_position e) + 1) (vz (ent_position e))
               (s\<lparr>combat := (combat s)\<lparr>target := Some a\<rparr>\<rparr>)))"

definition attackNearestEntity :: "string list \<Rightarrow> number option \<Rightarrow> bot \<Rightarrow> bot" where
  "attackNearestEntity types maxDistance s =
     (case findNearestEntity types maxDistance s of
        None \<Rightarrow> s
      | Some a \<Rightarrow> attackEntity a s)"

definition stop :: "bot \<Rightarrow> bot" where
  "stop s = s\<lparr>combat := (combat s)\<lparr>target := None\<rparr>\<rparr>"

text \<open>One period of the two 50 ms intervals: the callback of \<^verbatim>\<open>Physics\<close>, set first,
  then that of \<^verbatim>\<open>Combat\<close>.\<close>

definition tick :: "bot \<Rightarrow> bot" where
  "tick s = Combat_update (Physics_update s)"

subsection \<open>Crafting\<close>

definition loadRecipes :: "string \<rightharpoonup> recipe" where
  "loadRecipes =
     [''stick'' \<mapsto>
        \<lparr>ingredients = [\<lparr>ing_item = ''planks'', ing_count = 2\<rparr>],
         result = \<lparr>ing_item = ''stick'', ing_count = 4\<rparr>,
         requiresCraftingTable = False\<rparr>]"

text \<open>The first loop of \<^verbatim>\<open>craft\<close>: the error of the first ingredient that is not found or
  of which the slot found holds too few.\<close>

fun check_ingredients :: "inventory \<Rightarrow> int \<Rightarrow> ingredient list \<Rightarrow> error option" where
  "check_ingredients iv cnt [] = None"
| "check_ingredients iv cnt (g # gs) =
     (case findItem iv (ItemName (ing_item g)) of
        None \<Rightarrow> Some (MissingIngredient (ing_item g))
      | Some (it, sl) \<Rightarrow>
          (if item_count it < ing_count g * cnt then Some (MissingIngredient (ing_item g))
           else check_ingredients iv cnt gs))"

text \<open>The second loop, from ingredient \<open>i\<close> on: one \<^verbatim>\<open>window_click\<close> for each
  ingredient; \<^verbatim>\<open>found.slot\<close> on \<^verbatim>\<open>null\<close> is a TypeError.\<close>

fun place_ingredients :: "recipe \<Rightarrow> ingredient list \<Rightarrow> int \<Rightarrow> bot \<Rightarrow> error option \<times> bot" where
  "place_ingredients r [] i s = (None, s)"
| "place_ingredients r (g # gs) i s =
     (case findItem (inventory s) (ItemName (ing_item g)) of
        None \<Rightarrow> (Some TypeError, s)
      | Some (it, sl) \<Rightarrow>
          place_ingredients r gs (i + 1)
            (client_write
               (W_window_click (if requiresCraftingTable r then 1 else 0) (int sl) 0 i 0 (Some it))
               s))"

text \<open>
  How a call of \<^verbatim>\<open>craft\<close> ends or where it is suspended: the \<^verbatim>\<open>await\<close> of
  \<^verbatim>\<open>moveTo\<close> (the pathfinder is not part of this file) and the \<^verbatim>\<open>await\<close> of the
  \<^verbatim>\<open>window_open\<close> event.
\<close>

datatype craft_outcome = Crafted | AwaitingMove | AwaitingWindow

text \<open>The right click on the crafting table, and the part of \<^verbatim>\<open>craft\<close> after the table is
  open (or not needed).\<close>

definition click_table :: "vec3 \<Rightarrow> bot \<Rightarrow> bot" where
  "click_table tp s = client_write (W_block_place tp 1 0 (1 / 2) (1 / 2) (1 / 2)) s"

definition craft_finish :: "recipe \<Rightarrow> bot \<Rightarrow> (error + craft_outcome) \<times> bot" where
  "craft_finish r s =
     (case place_ingredients r (ingredients r) 0 s of
        (Some e, s1) \<Rightarrow> (Inl e, s1)
      | (None, s1) \<Rightarrow>
          (let s2 = client_write
                      (W_window_click (if requiresCraftingTable r then 1 else 0) 0 0
                         (int (length (ingredients r))) 0 None) s1
           in (Inr Crafted,
               if requiresCraftingTable r then client_write (W_close_window 1) s2 else s2)))"

definition openCraftingTable :: "bot \<Rightarrow> (error + craft_outcome) \<times> bot" where
  "openCraftingTable s =
     (case craftingTablePos (crafting s) of
        None \<Rightarrow> (Inl NoCraftingTablePosition, s)
      | Some tp \<Rightarrow>
          (if vec3_distanceTo (position s) tp > 3 then (Inr AwaitingMove, s)
           else (Inr AwaitingWindow, click_table tp s)))"

definition craft :: "string \<Rightarrow> int \<Rightarrow> bot \<Rightarrow> (error + craft_outcome) \<times> bot" where
  "craft itemName cnt s =
     (case recipes (crafting s) itemName of
        None \<Rightarrow> (Inl (UnknownRecipe itemName), s)
      | Some r \<Rightarrow>
          (if requiresCraftingTable r \<and> craftingTablePos (crafting s) = None
           then (Inl CraftingTableRequired, s)
           else
             (case check_ingredients (inventory s) cnt (ingredients r) of
                Some e \<Rightarrow> (Inl e, s)
              | None \<Rightarrow>
                  (if requiresCraftingTable r then openCraftingTable s
                   else craft_finish r s))))"

definition setCraftingTablePosition :: "number \<Rightarrow> number \<Rightarrow> number \<Rightarrow> bot \<Rightarrow> bot" where
  "setCraftingTablePosition x y z s =
     s\<lparr>crafting := (crafting s)\<lparr>craftingTablePos := Some (Vec3 x y z)\<rparr>\<rparr>"

subsection \<open>The packet handlers\<close>

fun on_packet :: "packet \<Rightarrow> bot \<Rightarrow> bot" where
  "on_packet P_connect s = bot_emit E_connect (s\<lparr>is_connected := True\<rparr>)"
| "on_packet (P_disconnect reason) s = bot_emit (E_disconnect reason) (s\<lparr>is_connected := False\<rparr>)"
| "on_packet (P_error err) s = bot_emit (E_error err) s"
| "on_packet (P_position x y z yw pt og) s =
     bot_emit (E_position (Vec3 x y z))
       (s\<lparr>position := Vec3 x y z, yaw := yw, pitch := pt, onGround := Some og\<rparr>)"
| "on_packet (P_chat message sender) s = bot_emit (E_chat message sender) s"
| "on_packet (P_entity_metadata entityId md) s =
     s\<lparr>tracker := updateMetadata entityId md (tracker s)\<rparr>"
| "on_packet (P_health h f fs) s =
     (let s1 = bot_emit (E_health h f) (s\<lparr>health := h, food := f, foodSaturation := Some fs\<rparr>)
      in if health s1 \<le> 0 then bot_emit E_death s1 else s1)"
| "on_packet (P_block_change x y z ty) s =
     emit_blockUpdate (Vec3 x y z) ty (s\<lparr>world := setBlock (world s) (Vec3 x y z) ty\<rparr>)"
| "on_packet (P_window_items its) s = s\<lparr>inventory := (inventory s)\<lparr>slots := its\<rparr>\<rparr>"
| "on_packet (P_set_slot sl it) s =
     s\<lparr>inventory := (inventory s)\<lparr>slots := slot_assign (slots (inventory s)) sl it\<rparr>\<rparr>"
| "on_packet (P_map_chunk cx cz) s =
     s\<lparr>world := (world s)\<lparr>chunkLoaded := insert (cx, cz) (chunkLoaded (world s))\<rparr>\<rparr>"
| "on_packet (P_spawn_entity entityId ty pos vel yw pt) s =
     s\<lparr>tracker := on_spawn_entity entityId ty pos vel yw pt (tracker s)\<rparr>"
| "on_packet (P_spawn_player entityId uuid nm pos yw pt) s =
     s\<lparr>tracker := on_spawn_player entityId uuid nm pos yw pt (tracker s)\<rparr>"
| "on_packet (P_entity_destroy entityIds) s =
     s\<lparr>tracker := on_entity_destroy entityIds (tracker s)\<rparr>"
| "on_packet (P_entity_move entityId dX dY dZ) s =
     s\<lparr>tracker := on_entity_move entityId dX dY dZ (tracker s)\<rparr>"

subsection \<open>Runs of the bot\<close>

text \<open>
  The calls a user of the bot can make. A call that throws leaves the state as it was at
  the \<^verbatim>\<open>throw\<close>. \<^verbatim>\<open>moveTo\<close> is left out: it only hands its target to the pathfinder.
\<close>

datatype call =
    C_chat string
  | C_lookAt number number number
  | C_attack int
  | C_placeBlock number number number int
  | C_mineBlock number number number
  | C_disconnect string
  | C_selectSlot int
  | C_moveItem int int
  | C_dropItem int bool
  | C_setBlock vec3 int
  | C_updateMetadata int metadata
  | C_jump
  | C_move number number bool
  | C_craft string int
  | C_setCraftingTablePosition number number number
  | C_attackEntity nat
  | C_attackNearestEntity "string list" "number option"
  | C_stop

fun do_call :: "call \<Rightarrow> bot \<Rightarrow> bot" where
  "do_call (C_chat message) s = chat message s"
| "do_call (C_lookAt x y z) s = lookAt x y z s"
| "do_call (C_attack entityId) s = attack entityId s"
| "do_call (C_placeBlock x y z face) s = placeBlock x y z face s"
| "do_call (C_mineBlock x y z) s = snd (mineBlock x y z s)"
| "do_call (C_disconnect reason) s = disconnect reason s"
| "do_call (C_selectSlot slot) s = (case selectSlot slot s of Inl e \<Rightarrow> s | Inr s1 \<Rightarrow> s1)"
| "do_call (C_moveItem fromSlot toSlot) s = moveItem fromSlot toSlot s"
| "do_call (C_dropItem slot fullStack) s = dropItem slot fullStack s"
| "do_call (C_setBlock pos blockType) s = s\<lparr>world := setBlock (world s) pos blockType\<rparr>"
| "do_call (C_updateMetadata entityId md) s = s\<lparr>tracker := updateMetadata entityId md (tracker s)\<rparr>"
| "do_call C_jump s = jump s"
| "do_call (C_move x z sprint) s = move x z sprint s"
| "do_call (C_craft itemName cnt) s = snd (craft itemName cnt s)"
| "do_call (C_setCraftingTablePosition x y z) s = setCraftingTablePosition x y z s"
| "do_call (C_attackEntity a) s = attackEntity a s"
| "do_call (C_attackNearestEntity types maxDistance) s = attackNearestEntity types maxDistance s"
| "do_call C_stop s = stop s"

text \<open>
  What can happen to the bot, one at a time (JavaScript runs one callback to its end before
  the next): a packet arrives, an interval or a timer fires, the user calls a method.
\<close>

datatype action = Receive packet | PhysicsTick | CombatTick | DigTimer | Call call

fun step :: "action \<Rightarrow> bot \<Rightarrow> bot" where
  "step (Receive pk) s = on_packet pk s"
| "step PhysicsTick s = Physics_update s"
| "step CombatTick s = Combat_update s"
| "step DigTimer s = dig_timeout s"
| "step (Call c) s = do_call c s"

fun run :: "action list \<Rightarrow> bot \<Rightarrow> bot" where
  "run [] s = s"
| "run (a # as) s = run as (step a s)"

text \<open>The state the constructors leave.\<close>

definition bot0 :: bot where
  "bot0 =
     \<lparr>is_connected = False, position = Vec3 0 0 0, velocity = Vec3 0 0 0, yaw = 0, pitch = 0,
      onGround = None, health = 20, food = 20, foodSaturation = None, gameMode = 0,
      inventory = \<lparr>slots = replicate 46 None, selectedSlot = 0\<rparr>,
      world = \<lparr>blocks = Map.empty, chunkLoaded = {}\<rparr>,
      tracker = \<lparr>heap = [], entities = [], players = []\<rparr>,
      physics = \<lparr>gravity = - (8 / 100), jumpSpeed = 42 / 100, jumpCooldown = 0\<rparr>,
      crafting = \<lparr>recipes = loadRecipes, craftingTablePos = None\<rparr>,
      combat = \<lparr>target = None, attackCooldown = 0\<rparr>,
      written = [], emitted = [], listeners = [], dig_timers = [], fulfilled = [],
      next_promise = 0\<rparr>"

subsection \<open>Notions the properties are stated with\<close>

text \<open>\<open>s'\<close> is \<open>s\<close> with more commands written, and nothing else changed.\<close>

definition only_writes :: "bot \<Rightarrow> bot \<Rightarrow> bool" where
  "only_writes s s' = (\<exists>ws. s' = s\<lparr>written := written s @ ws\<rparr>)"

definition cooldowns_ok :: "bot \<Rightarrow> bool" where
  "cooldowns_ok s = (0 \<le> jumpCooldown (physics s) \<and> 0 \<le> attackCooldown (combat s))"

text \<open>The number of \<^verbatim>\<open>death\<close> events emitted so far, and the actions that are the arrival of
  a health packet with health at most zero.\<close>

definition deaths :: "bot \<Rightarrow> nat" where
  "deaths s = count_list (emitted s) E_death"

fun zero_health :: "action \<Rightarrow> bool" where
  "zero_health (Receive (P_health h f fs)) = (h \<le> 0)"
| "zero_health a = False"

text \<open>
  The actions that are the arrival of a block change at the coordinates \<open>x\<close>, \<open>y\<close>, \<open>z\<close>,
  and those of them that report air, the block type 0.
\<close>

fun changes_block :: "number \<Rightarrow> number \<Rightarrow> number \<Rightarrow> action \<Rightarrow> bool" where
  "changes_block x y z (Receive (P_block_change x' y' z' ty)) = (x' = x \<and> y' = y \<and> z' = z)"
| "changes_block x y z a = False"

fun reports_air :: "number \<Rightarrow> number \<Rightarrow> number \<Rightarrow> action \<Rightarrow> bool" where
  "reports_air x y z (Receive (P_block_change x' y' z' ty)) =
     (x' = x \<and> y' = y \<and> z' = z \<and> ty = 0)"
| "reports_air x y z a = False"

text \<open>
  What holds of the listeners and promises of \<^verbatim>\<open>mineBlock\<close> in every state the bot reaches:
  every promise has at most one listener, the promise of a listener is not resolved, and
  the promises in use are below the next one. \<open>dig_part\<close> is the part of the state that
  \<^verbatim>\<open>mineBlock\<close> and the \<^verbatim>\<open>blockUpdate\<close> event work on.
\<close>

definition dig_inv :: "bot \<Rightarrow> bool" where
  "dig_inv s =
     (distinct (map fst (listeners s))
      \<and> (\<forall>l \<in> set (listeners s). fst l < next_promise s \<and> fst l \<notin> set (fulfilled s))
      \<and> (\<forall>p \<in> set (fulfilled s). p < next_promise s))"

definition dig_part :: "bot \<Rightarrow> (nat \<times> number \<times> number \<times> number) list \<times> nat list \<times> nat" where
  "dig_part s = (listeners s, fulfilled s, next_promise s)"

text \<open>
  What an action does to the tracker. Only the five packets of the tracker and a call of
  \<^verbatim>\<open>updateMetadata\<close> change it (lemma \<open>tracker_step\<close>).
\<close>

fun tracker_op :: "action \<Rightarrow> entity_tracker \<Rightarrow> entity_tracker" where
  "tracker_op (Receive (P_entity_metadata entityId md)) tr = updateMetadata entityId md tr"
| "tracker_op (Receive (P_spawn_entity entityId ty pos vel yw pt)) tr =
     on_spawn_entity entityId ty pos vel yw pt tr"
| "tracker_op (Receive (P_spawn_player entityId uuid nm pos yw pt)) tr =
     on_spawn_player entityId uuid nm pos yw pt tr"
| "tracker_op (Receive (P_entity_destroy entityIds)) tr = on_entity_destroy entityIds tr"
| "tracker_op (Receive (P_entity_move entityId dX dY dZ)) tr = on_entity_move entityId dX dY dZ tr"
| "tracker_op (Call (C_updateMetadata entityId md)) tr = updateMetadata entityId md tr"
| "tracker_op a tr = tr"

text \<open>The actions that are the arrival of a spawn packet for the id \<open>k\<close>.\<close>

fun spawns :: "int \<Rightarrow> action \<Rightarrow> bool" where
  "spawns k (Receive (P_spawn_entity entityId ty pos vel yw pt)) = (entityId = k)"
| "spawns k (Receive (P_spawn_player entityId uuid nm pos yw pt)) = (entityId = k)"
| "spawns k a = False"

text \<open>
  \<open>tracked_as s k a\<close>: one of the two maps resolves the id \<open>k\<close> to the object \<open>a\<close>.
  \<open>untracked k tr\<close>: neither map has the id \<open>k\<close>. \<open>tracker_inv\<close>: every reference of the
  maps is to an object of the heap, stored under the id of that object. \<open>gone a tr\<close>: the
  object \<open>a\<close> exists and neither map refers to it.
\<close>

definition tracked_as :: "bot \<Rightarrow> int \<Rightarrow> nat \<Rightarrow> bool" where
  "tracked_as s k a =
     (map_of (entities (tracker s)) k = Some a \<or> map_of (players (tracker s)) k = Some a)"

definition untracked :: "int \<Rightarrow> entity_tracker \<Rightarrow> bool" where
  "untracked k tr = (map_of (entities tr) k = None \<and> map_of (players tr) k = None)"

definition tracker_inv :: "entity_tracker \<Rightarrow> bool" where
  "tracker_inv tr =
     (\<forall>(k, a) \<in> set (entities tr) \<union> set (players tr).
        a < length (heap tr) \<and> ent_id (heap tr ! a) = k)"

definition gone :: "nat \<Rightarrow> entity_tracker \<Rightarrow> bool" where
  "gone a tr =
     (a < length (heap tr) \<and> a \<notin> snd ` set (entities tr) \<and> a \<notin> snd ` set (players tr))"

text \<open>Runs used as examples below.\<close>

definition stalled :: "action list" where
  "stalled =
     [Receive P_connect,
      Receive (P_spawn_entity 7 ''zombie'' (Vec3 0 0 0) (Vec3 0 0 0) 0 0),
      Call (C_attackEntity 0), CombatTick, Call C_stop]"

definition steve_joins :: "action list" where
  "steve_joins = [Receive (P_spawn_player 7 ''uuid'' ''steve'' (Vec3 1 0 0) 0 0)]"

definition zombie_reuses_id :: "action list" where
  "zombie_reuses_id = [Receive (P_spawn_entity 7 ''zombie'' (Vec3 0 0 0) (Vec3 0 0 0) 0 0)]"

section \<open>Properties\<close>

subsection \<open>Calls that only write commands\<close>

lemma only_writes_refl: "only_writes s s"
  unfolding only_writes_def by (rule exI [of _ "[]"]) simp

lemma only_writes_trans: "only_writes s s1 \<Longrightarrow> only_writes s1 s2 \<Longrightarrow> only_writes s s2"
  unfolding only_writes_def by auto

lemma only_writes_client_write: "only_writes s (client_write c s)"
  unfolding only_writes_def client_write_def by auto

lemma only_writes_then_write: "only_writes s s1 \<Longrightarrow> only_writes s (client_write c s1)"
  using only_writes_client_write only_writes_trans by blast

lemma place_ingredients_only_writes: "only_writes s (snd (place_ingredients r gs i s))"
proof (induction gs arbitrary: i s)
  case Nil
  show ?case by (simp add: only_writes_refl)
next
  case (Cons g gs)
  show ?case
  proof (cases "findItem (inventory s) (ItemName (ing_item g))")
    case None
    then show ?thesis by (simp add: only_writes_refl)
  next
    case (Some f)
    obtain it sl where f: "f = (it, sl)" by (cases f)
    show ?thesis
      using Some f Cons.IH only_writes_client_write only_writes_trans
      by (metis (no_types, lifting) place_ingredients.simps(2) option.simps(5) case_prod_conv)
  qed
qed

lemma craft_finish_only_writes: "only_writes s (snd (craft_finish r s))"
proof -
  obtain e s1 where p: "place_ingredients r (ingredients r) 0 s = (e, s1)"
    by (cases "place_ingredients r (ingredients r) 0 s")
  have w: "only_writes s s1"
    using place_ingredients_only_writes [of s r "ingredients r" 0] p by simp
  show ?thesis
    using w p
    by (cases e) (auto simp add: craft_finish_def Let_def intro!: only_writes_then_write)
qed

lemma craft_only_writes: "only_writes s (snd (craft itemName cnt s))"
  by (auto simp add: craft_def openCraftingTable_def click_table_def only_writes_refl
      only_writes_client_write craft_finish_only_writes split: option.splits)

lemma only_writes_fields:
  assumes "only_writes s s'"
  shows "physics s' = physics s" and "combat s' = combat s" and "tracker s' = tracker s"
    and "listeners s' = listeners s" and "fulfilled s' = fulfilled s"
    and "next_promise s' = next_promise s" and "emitted s' = emitted s"
    and "world s' = world s" and "inventory s' = inventory s" and "position s' = position s"
    and "dig_timers s' = dig_timers s"
  using assms unfolding only_writes_def by auto

subsection \<open>The cooldown counters\<close>

lemma cooldowns_ok_packet: "cooldowns_ok s \<Longrightarrow> cooldowns_ok (on_packet pk s)"
  by (cases pk) (simp_all add: cooldowns_ok_def bot_emit_def emit_blockUpdate_def Let_def)

lemma cooldowns_ok_Physics_update: "cooldowns_ok s \<Longrightarrow> cooldowns_ok (Physics_update s)"
  by (simp add: cooldowns_ok_def Physics_update_def sendPositionUpdate_def client_write_def Let_def)

lemma cooldowns_ok_Combat_update: "cooldowns_ok s \<Longrightarrow> cooldowns_ok (Combat_update s)"
  by (simp add: cooldowns_ok_def Combat_update_def lookAt_def move_def attack_def
      client_write_def Let_def split: option.splits)

lemma cooldowns_ok_dig_timeout: "cooldowns_ok s \<Longrightarrow> cooldowns_ok (dig_timeout s)"
  by (simp add: cooldowns_ok_def dig_timeout_def client_write_def split: list.splits)

lemma cooldowns_ok_attackEntity: "cooldowns_ok s \<Longrightarrow> cooldowns_ok (attackEntity a s)"
  by (simp add: cooldowns_ok_def attackEntity_def lookAt_def attack_def client_write_def
      Let_def split: option.splits)

lemma cooldowns_ok_call: "cooldowns_ok s \<Longrightarrow> cooldowns_ok (do_call c s)"
proof (cases c)
  case (C_craft itemName cnt)
  then show "cooldowns_ok s \<Longrightarrow> cooldowns_ok (do_call c s)"
    using only_writes_fields(1,2) [OF craft_only_writes [of s itemName cnt]]
    by (simp add: cooldowns_ok_def)
next
  case (C_attackNearestEntity types maxDistance)
  then show "cooldowns_ok s \<Longrightarrow> cooldowns_ok (do_call c s)"
    by (simp add: attackNearestEntity_def cooldowns_ok_attackEntity split: option.splits)
qed (simp_all add: cooldowns_ok_attackEntity,
     simp_all add: cooldowns_ok_def chat_def lookAt_def attack_def placeBlock_def mineBlock_def
       disconnect_def selectSlot_def moveItem_def dropItem_def jump_def move_def
       setCraftingTablePosition_def stop_def client_write_def Let_def)

lemma cooldowns_ok_step: "cooldowns_ok s \<Longrightarrow> cooldowns_ok (step a s)"
  by (cases a)
    (simp_all add: cooldowns_ok_packet cooldowns_ok_Physics_update cooldowns_ok_Combat_update
      cooldowns_ok_dig_timeout cooldowns_ok_call)

lemma cooldowns_ok_run: "cooldowns_ok s \<Longrightarrow> cooldowns_ok (run as s)"
  by (induction as arbitrary: s) (simp_all add: cooldowns_ok_step)

lemma cooldowns_ok_bot0: "cooldowns_ok bot0"
  by (simp add: cooldowns_ok_def bot0_def)

text \<open>
  Claim C3. Whatever packets arrive, intervals and timers fire and methods are called, in
  whatever order, from the state the constructors leave: the jump cooldown and the attack
  cooldown are never negative.
\<close>

theorem cooldowns_never_negative:
  "0 \<le> jumpCooldown (physics (run as bot0)) \<and> 0 \<le> attackCooldown (combat (run as bot0))"
  using cooldowns_ok_run [OF cooldowns_ok_bot0, of as] by (simp add: cooldowns_ok_def)

subsection \<open>The death signal\<close>

lemma deaths_packet:
  "deaths (on_packet pk s) = deaths s + (if zero_health (Receive pk) then 1 else 0)"
  by (cases pk) (simp_all add: deaths_def bot_emit_def emit_blockUpdate_def Let_def)

lemma emitted_Physics_update: "emitted (Physics_update s) = emitted s"
  by (simp add: Physics_update_def sendPositionUpdate_def client_write_def Let_def)

lemma emitted_Combat_update: "emitted (Combat_update s) = emitted s"
  by (simp add: Combat_update_def lookAt_def move_def attack_def
      client_write_def Let_def split: option.splits)

lemma emitted_dig_timeout: "emitted (dig_timeout s) = emitted s"
  by (simp add: dig_timeout_def client_write_def split: list.splits)

lemma emitted_attackEntity: "emitted (attackEntity a s) = emitted s"
  by (simp add: attackEntity_def lookAt_def attack_def client_write_def
      Let_def split: option.splits)

lemma emitted_call: "emitted (do_call c s) = emitted s"
proof (cases c)
  case (C_craft itemName cnt)
  then show ?thesis
    using only_writes_fields(7) [OF craft_only_writes [of s itemName cnt]] by simp
next
  case (C_attackNearestEntity types maxDistance)
  then show ?thesis
    by (simp add: attackNearestEntity_def emitted_attackEntity split: option.splits)
qed (simp_all add: emitted_attackEntity,
     simp_all add: chat_def lookAt_def attack_def placeBlock_def mineBlock_def
       disconnect_def selectSlot_def moveItem_def dropItem_def jump_def move_def
       setCraftingTablePosition_def stop_def client_write_def Let_def)

lemma deaths_step: "deaths (step a s) = deaths s + (if zero_health a then 1 else 0)"
proof (cases a)
  case (Receive pk)
  then show ?thesis using deaths_packet [of pk s] by simp
qed (simp_all add: deaths_def emitted_Physics_update emitted_Combat_update
      emitted_dig_timeout emitted_call)

text \<open>
  Claim C5, as the code has it. The health handler emits \<^verbatim>\<open>death\<close> for every packet whose
  health is at most zero, and nothing else emits it: over any run, the number of deaths
  emitted grows by the number of such packets. Several zero-health updates in a row emit
  one death each.
\<close>

theorem death_emitted_for_every_zero_health_update:
  "deaths (run as s) = deaths s + length (filter zero_health as)"
  by (induction as arbitrary: s) (simp_all add: deaths_step del: step.simps)

text \<open>
  Claim C5 as stated fails: two zero-health updates in a row emit two deaths, not one.
\<close>

theorem death_twice_counterexample:
  "deaths (run [Receive (P_health 0 20 5), Receive (P_health 0 20 5)] bot0) = 2"
  by (simp add: deaths_def bot_emit_def bot0_def)

subsection \<open>Crafting without the ingredients\<close>

lemma check_ingredients_missing:
  assumes "g \<in> set gs"
    and "case findItem iv (ItemName (ing_item g)) of
           None \<Rightarrow> True | Some (it, sl) \<Rightarrow> item_count it < ing_count g * cnt"
  shows "\<exists>g' \<in> set gs. check_ingredients iv cnt gs = Some (MissingIngredient (ing_item g'))"
  using assms
proof (induction gs)
  case Nil
  then show ?case by simp
next
  case (Cons h gs)
  show ?case
  proof (cases "check_ingredients iv cnt [h]")
    case None
    then have "g \<noteq> h"
      using Cons.prems(2) by (auto split: option.splits if_splits)
    then have "g \<in> set gs" using Cons.prems(1) by simp
    then obtain g' where "g' \<in> set gs"
      "check_ingredients iv cnt gs = Some (MissingIngredient (ing_item g'))"
      using Cons.IH Cons.prems(2) by blast
    then show ?thesis using None by (auto split: option.splits if_splits)
  next
    case (Some e)
    then show ?thesis by (auto split: option.splits if_splits)
  qed
qed

lemma only_writes_crafting: "only_writes s s' \<Longrightarrow> crafting s' = crafting s"
  unfolding only_writes_def by auto

lemma recipes_packet: "recipes (crafting (on_packet pk s)) = recipes (crafting s)"
  by (cases pk) (simp_all add: bot_emit_def emit_blockUpdate_def Let_def)

lemma recipes_Physics_update: "recipes (crafting (Physics_update s)) = recipes (crafting s)"
  by (simp add: Physics_update_def sendPositionUpdate_def client_write_def Let_def)

lemma recipes_Combat_update: "recipes (crafting (Combat_update s)) = recipes (crafting s)"
  by (simp add: Combat_update_def lookAt_def move_def attack_def
      client_write_def Let_def split: option.splits)

lemma recipes_dig_timeout: "recipes (crafting (dig_timeout s)) = recipes (crafting s)"
  by (simp add: dig_timeout_def client_write_def split: list.splits)

lemma recipes_attackEntity: "recipes (crafting (attackEntity a s)) = recipes (crafting s)"
  by (simp add: attackEntity_def lookAt_def attack_def client_write_def
      Let_def split: option.splits)

lemma recipes_call: "recipes (crafting (do_call c s)) = recipes (crafting s)"
proof (cases c)
  case (C_craft itemName cnt)
  then show ?thesis
    using only_writes_crafting [OF craft_only_writes [of s itemName cnt]] by simp
next
  case (C_attackNearestEntity types maxDistance)
  then show ?thesis
    by (simp add: attackNearestEntity_def recipes_attackEntity split: option.splits)
qed (simp_all add: recipes_attackEntity,
     simp_all add: chat_def lookAt_def attack_def placeBlock_def mineBlock_def
       disconnect_def selectSlot_def moveItem_def dropItem_def jump_def move_def
       setCraftingTablePosition_def stop_def client_write_def Let_def)

lemma recipes_step: "recipes (crafting (step a s)) = recipes (crafting s)"
  by (cases a)
    (simp_all add: recipes_packet recipes_call recipes_Physics_update recipes_Combat_update
      recipes_dig_timeout del: on_packet.simps do_call.simps)

lemma recipes_run: "recipes (crafting (run as s)) = recipes (crafting s)"
  by (induction as arbitrary: s) (simp_all add: recipes_step del: step.simps)

lemma loaded_recipes_need_no_table:
  "loadRecipes itemName = Some r \<Longrightarrow> \<not> requiresCraftingTable r"
  by (auto simp add: loadRecipes_def split: if_splits)

text \<open>
  Claim C6. When the recipe of the item has an ingredient of which \<^verbatim>\<open>findItem\<close> finds no
  slot (or finds a slot that holds fewer than the recipe needs), \<^verbatim>\<open>craft\<close> throws the error
  of a missing ingredient and the state is the one before the call: nothing was written to
  the client. This holds in every state the bot reaches, where the recipes are the loaded
  ones, and in any state whatever when the recipe needs no crafting table or the position
  of one is set.
\<close>

theorem craft_missing_ingredient:
  assumes "recipes (crafting s) itemName = Some r"
    and "g \<in> set (ingredients r)"
    and "case findItem (inventory s) (ItemName (ing_item g)) of
           None \<Rightarrow> True | Some (it, sl) \<Rightarrow> item_count it < ing_count g * cnt"
    and "s = run before bot0 \<or> (requiresCraftingTable r \<longrightarrow> craftingTablePos (crafting s) \<noteq> None)"
  shows "\<exists>g' \<in> set (ingredients r).
           craft itemName cnt s = (Inl (MissingIngredient (ing_item g')), s)"
proof -
  have table: "requiresCraftingTable r \<longrightarrow> craftingTablePos (crafting s) \<noteq> None"
  proof (cases "s = run before bot0")
    case True
    then have "loadRecipes itemName = Some r"
      using assms(1) recipes_run [of before bot0] by (simp add: bot0_def)
    then show ?thesis using loaded_recipes_need_no_table by blast
  next
    case False
    then show ?thesis using assms(4) by blast
  qed
  obtain g' where "g' \<in> set (ingredients r)"
    "check_ingredients (inventory s) cnt (ingredients r) = Some (MissingIngredient (ing_item g'))"
    using check_ingredients_missing [OF assms(2,3)] by blast
  then show ?thesis using assms(1) table by (auto simp add: craft_def)
qed

lemma findItem_from_no_items: "findItem_from (replicate n None) k i = None"
  by (induction n arbitrary: i) simp_all

text \<open>The scenario of the claim: \<^verbatim>\<open>craft('stick')\<close> with an empty inventory.\<close>

theorem craft_missing_ingredient_witness:
  "craft ''stick'' 1 bot0 = (Inl (MissingIngredient ''planks''), bot0)
   \<and> written (do_call (C_craft ''stick'' 1) bot0) = []"
  using craft_missing_ingredient [of bot0 "''stick''"
      "\<lparr>ingredients = [\<lparr>ing_item = ''planks'', ing_count = 2\<rparr>],
        result = \<lparr>ing_item = ''stick'', ing_count = 4\<rparr>, requiresCraftingTable = False\<rparr>"
      "\<lparr>ing_item = ''planks'', ing_count = 2\<rparr>" 1 "[]"]
  by (simp add: bot0_def loadRecipes_def findItem_def findItem_from_no_items)

subsection \<open>Position, block changes and the hotbar\<close>

text \<open>
  Claim C7. After the handler of a position packet, the position, the yaw and the pitch of the
  bot (and its \<open>onGround\<close>) are those of the packet, whatever they were before.
\<close>

theorem position_event_replaces_prediction:
  "position (on_packet (P_position x y z yw pt og) s) = Vec3 x y z
   \<and> yaw (on_packet (P_position x y z yw pt og) s) = yw
   \<and> pitch (on_packet (P_position x y z yw pt og) s) = pt
   \<and> onGround (on_packet (P_position x y z yw pt og) s) = Some og"
  by (simp add: bot_emit_def)

text \<open>
  Claim C9. \<^verbatim>\<open>setBlock\<close> twice with the same position and block type gives the block map
  of \<^verbatim>\<open>setBlock\<close> once; and the handler of a block change, run twice on the same packet,
  leaves the state of running it once, but for the second \<^verbatim>\<open>blockUpdate\<close> event it emits.
\<close>

theorem block_change_idempotent:
  "setBlock (setBlock w pos b) pos b = setBlock w pos b
   \<and> on_packet (P_block_change x y z b) (on_packet (P_block_change x y z b) s)
       = (on_packet (P_block_change x y z b) s)
           \<lparr>emitted := emitted (on_packet (P_block_change x y z b) s)
                        @ [E_blockUpdate (Vec3 x y z) b]\<rparr>"
  by (simp add: setBlock_def emit_blockUpdate_def bot_emit_def)

text \<open>
  Claim C10. \<^verbatim>\<open>selectSlot\<close> with a slot below 0 or above 8 throws and leaves the whole state
  as it was (no command written, \<open>selectedSlot\<close> unchanged); with a slot from 0 to 8 it sets
  \<open>selectedSlot\<close> to the slot and writes one \<^verbatim>\<open>held_item_slot\<close> command.
\<close>

theorem selectSlot_hotbar_range:
  "(slot < 0 \<or> 8 < slot \<longrightarrow>
      selectSlot slot s = Inl HotbarSlotRange \<and> do_call (C_selectSlot slot) s = s)
   \<and> (0 \<le> slot \<and> slot \<le> 8 \<longrightarrow>
        (\<exists>s'. selectSlot slot s = Inr s' \<and> do_call (C_selectSlot slot) s = s'
              \<and> selectedSlot (inventory s') = slot
              \<and> written s' = written s @ [W_held_item_slot slot]))"
  by (auto simp add: selectSlot_def client_write_def)

text \<open>Slots 9 and -1 are refused, slot 3 is selected.\<close>

theorem selectSlot_hotbar_range_witness:
  "selectSlot 9 bot0 = Inl HotbarSlotRange \<and> do_call (C_selectSlot 9) bot0 = bot0
   \<and> selectSlot (- 1) bot0 = Inl HotbarSlotRange
   \<and> selectedSlot (inventory (do_call (C_selectSlot 3) bot0)) = 3
   \<and> written (do_call (C_selectSlot 3) bot0) = [W_held_item_slot 3]"
  using selectSlot_hotbar_range [of 9 bot0] selectSlot_hotbar_range [of "- 1" bot0]
    selectSlot_hotbar_range [of 3 bot0]
  by (auto simp add: bot0_def)

subsection \<open>Digging\<close>

lemma dig_part_Physics_update: "dig_part (Physics_update s) = dig_part s"
  by (simp add: dig_part_def Physics_update_def sendPositionUpdate_def client_write_def Let_def)

lemma dig_part_Combat_update: "dig_part (Combat_update s) = dig_part s"
  by (simp add: dig_part_def Combat_update_def lookAt_def move_def attack_def
      client_write_def Let_def split: option.splits)

lemma dig_part_dig_timeout: "dig_part (dig_timeout s) = dig_part s"
  by (simp add: dig_part_def dig_timeout_def client_write_def split: list.splits)

lemma dig_part_attackEntity: "dig_part (attackEntity a s) = dig_part s"
  by (simp add: dig_part_def attackEntity_def lookAt_def attack_def client_write_def
      Let_def split: option.splits)

lemma dig_part_packet:
  "\<forall>x y z ty. pk \<noteq> P_block_change x y z ty \<Longrightarrow> dig_part (on_packet pk s) = dig_part s"
  by (cases pk) (simp_all add: dig_part_def bot_emit_def Let_def)

lemma dig_part_call:
  "\<forall>x y z. c \<noteq> C_mineBlock x y z \<Longrightarrow> dig_part (do_call c s) = dig_part s"
proof (cases c)
  case (C_craft itemName cnt)
  then show ?thesis
    using only_writes_fields(4,5,6) [OF craft_only_writes [of s itemName cnt]]
    by (simp add: dig_part_def)
next
  case (C_attackNearestEntity types maxDistance)
  then show ?thesis
    by (simp add: attackNearestEntity_def dig_part_attackEntity split: option.splits)
qed (simp_all add: dig_part_attackEntity,
     simp_all add: dig_part_def chat_def lookAt_def attack_def placeBlock_def
       disconnect_def selectSlot_def moveItem_def dropItem_def jump_def move_def
       setCraftingTablePosition_def stop_def client_write_def Let_def)

lemma dig_part_step:
  "\<forall>x y z ty. a \<noteq> Receive (P_block_change x y z ty) \<Longrightarrow>
   \<forall>x y z. a \<noteq> Call (C_mineBlock x y z) \<Longrightarrow> dig_part (step a s) = dig_part s"
  by (cases a)
    (simp_all add: dig_part_packet dig_part_call dig_part_Physics_update dig_part_Combat_update
      dig_part_dig_timeout)

lemma dig_part_block_change:
  "dig_part (on_packet (P_block_change x y z ty) s) =
     (filter (\<lambda>l. \<not> listens_for (Vec3 x y z) l) (listeners s),
      fulfilled s @ map fst (filter (listens_for (Vec3 x y z)) (listeners s)),
      next_promise s)"
  by (simp add: dig_part_def emit_blockUpdate_def bot_emit_def)

lemma dig_part_mineBlock:
  "dig_part (snd (mineBlock x y z s)) =
     (listeners s @ [(next_promise s, x, y, z)], fulfilled s, Suc (next_promise s))"
  by (simp add: dig_part_def mineBlock_def client_write_def)

lemma dig_inv_iff:
  "dig_inv s =
     (case dig_part s of (ls, fs, n) \<Rightarrow>
        distinct (map fst ls) \<and> (\<forall>l \<in> set ls. fst l < n \<and> fst l \<notin> set fs)
        \<and> (\<forall>p \<in> set fs. p < n))"
  by (simp add: dig_inv_def dig_part_def)

lemma dig_inv_step: "dig_inv s \<Longrightarrow> dig_inv (step a s)"
proof -
  assume inv: "dig_inv s"
  consider (bc) x y z ty where "a = Receive (P_block_change x y z ty)"
    | (mb) x y z where "a = Call (C_mineBlock x y z)"
    | (other) "\<forall>x y z ty. a \<noteq> Receive (P_block_change x y z ty)"
        "\<forall>x y z. a \<noteq> Call (C_mineBlock x y z)"
    by blast
  then show ?thesis
  proof cases
    case bc
    have "distinct (map fst (filter (\<lambda>l. \<not> listens_for (Vec3 x y z) l) (listeners s)))"
      using inv by (simp add: dig_inv_def distinct_map_filter)
    then show ?thesis
      using inv bc unfolding dig_inv_iff [of "step a s"]
      by (auto simp add: dig_part_block_change dig_inv_def simp del: on_packet.simps
          dest: eq_key_imp_eq_value)
  next
    case mb
    show ?thesis
      using inv mb unfolding dig_inv_iff [of "step a s"]
      by (auto simp add: dig_part_mineBlock dig_inv_def less_Suc_eq)
  next
    case other
    then show ?thesis
      using inv dig_part_step [of a s] by (simp add: dig_inv_iff)
  qed
qed

lemma action_kinds:
  obtains (bc) x y z ty where "a = Receive (P_block_change x y z ty)"
    | (mb) x y z where "a = Call (C_mineBlock x y z)"
    | (other) "\<forall>x y z ty. a \<noteq> Receive (P_block_change x y z ty)"
        "\<forall>x y z. a \<noteq> Call (C_mineBlock x y z)"
  by blast

lemma block_change_listeners:
  "listeners (on_packet (P_block_change x y z ty) s) =
     filter (\<lambda>l. \<not> listens_for (Vec3 x y z) l) (listeners s)"
  and block_change_fulfilled:
  "fulfilled (on_packet (P_block_change x y z ty) s) =
     fulfilled s @ map fst (filter (listens_for (Vec3 x y z)) (listeners s))"
  using dig_part_block_change [of x y z ty s] by (simp_all add: dig_part_def)

lemma mineBlock_listeners:
  "listeners (snd (mineBlock x y z s)) = listeners s @ [(next_promise s, x, y, z)]"
  and mineBlock_fulfilled: "fulfilled (snd (mineBlock x y z s)) = fulfilled s"
  using dig_part_mineBlock [of x y z s] by (simp_all add: dig_part_def)

lemma other_listeners:
  assumes "\<forall>x y z ty. a \<noteq> Receive (P_block_change x y z ty)"
    and "\<forall>x y z. a \<noteq> Call (C_mineBlock x y z)"
  shows "listeners (step a s) = listeners s" and "fulfilled (step a s) = fulfilled s"
  using dig_part_step [OF assms, of s] by (simp_all add: dig_part_def)

lemma listener_stays:
  assumes "(p, x, y, z) \<in> set (listeners s)" and "\<not> changes_block x y z a"
  shows "(p, x, y, z) \<in> set (listeners (step a s))"
proof (cases a rule: action_kinds)
  case (bc x' y' z' ty)
  then show ?thesis
    using assms by (auto simp add: block_change_listeners listens_for_def simp del: on_packet.simps)
next
  case (mb x' y' z')
  then show ?thesis
    using assms by (simp add: mineBlock_listeners)
next
  case other
  then show ?thesis
    using assms other_listeners(1) [of a s] by simp
qed

lemma listener_resolved:
  assumes "(p, x, y, z) \<in> set (listeners s)" and "changes_block x y z a"
  shows "p \<in> set (fulfilled (step a s))"
proof -
  obtain ty where a: "a = Receive (P_block_change x y z ty)"
    using assms(2) by (cases "(x, y, z, a)" rule: changes_block.cases) auto
  have "p \<in> fst ` set (filter (listens_for (Vec3 x y z)) (listeners s))"
    using assms(1) by (force simp add: listens_for_def)
  then show ?thesis
    using a by (simp add: block_change_fulfilled del: on_packet.simps)
qed

lemma fulfilled_step: "p \<in> set (fulfilled s) \<Longrightarrow> p \<in> set (fulfilled (step a s))"
proof (cases a rule: action_kinds)
  case (bc x' y' z' ty)
  then show "p \<in> set (fulfilled s) \<Longrightarrow> ?thesis"
    by (simp add: block_change_fulfilled del: on_packet.simps)
next
  case (mb x' y' z')
  then show "p \<in> set (fulfilled s) \<Longrightarrow> ?thesis"
    by (simp add: mineBlock_fulfilled)
next
  case other
  then show "p \<in> set (fulfilled s) \<Longrightarrow> ?thesis"
    using other_listeners(2) [of a s] by simp
qed

lemma fulfilled_run: "p \<in> set (fulfilled s) \<Longrightarrow> p \<in> set (fulfilled (run as s))"
  by (induction as arbitrary: s) (simp_all add: fulfilled_step del: step.simps)

lemma dig_inv_run: "dig_inv s \<Longrightarrow> dig_inv (run as s)"
  by (induction as arbitrary: s) (simp_all add: dig_inv_step del: step.simps)

lemma dig_inv_bot0: "dig_inv bot0"
  by (simp add: dig_inv_def bot0_def)

lemma listener_not_fulfilled:
  "dig_inv s \<Longrightarrow> (p, x, y, z) \<in> set (listeners s) \<Longrightarrow> p \<notin> set (fulfilled s)"
  by (auto simp add: dig_inv_def)

text \<open>A registered listener's promise is fulfilled by exactly the runs in which a block
  change at its coordinates arrives.\<close>

lemma dig_completion:
  assumes "dig_inv s" and "(p, x, y, z) \<in> set (listeners s)"
  shows "promise_state (run as s) p =
           (if \<exists>a \<in> set as. changes_block x y z a then Fulfilled else Pending)"
  using assms
proof (induction as arbitrary: s)
  case Nil
  then show ?case using listener_not_fulfilled by (simp add: promise_state_def)
next
  case (Cons a as)
  show ?case
  proof (cases "changes_block x y z a")
    case True
    then have "p \<in> set (fulfilled (run as (step a s)))"
      using Cons.prems(2) listener_resolved fulfilled_run by blast
    then show ?thesis using True by (simp add: promise_state_def del: step.simps)
  next
    case False
    then show ?thesis
      using Cons.IH [OF dig_inv_step [OF Cons.prems(1)] listener_stays [OF Cons.prems(2) False]]
      by (simp del: step.simps)
  qed
qed

lemma mineBlock_registers:
  "(next_promise s, x, y, z) \<in> set (listeners (snd (mineBlock x y z s)))"
  by (simp add: mineBlock_def)

text \<open>
  Claim C1, as the code has it. A dig is started in any state the bot can reach. If, in what
  happens afterwards, a block change at exactly the coordinates of the dig reports air, the
  promise of the dig is fulfilled. As long as no block change at those coordinates has
  arrived the promise is pending, whatever else happens (timers and ticks included): the
  code has no deadline for a dig and no outcome other than fulfilment.
\<close>

theorem dig_resolves_on_block_change:
  assumes "s = run before bot0" and "mineBlock x y z s = (p, s')"
  shows "((\<exists>a \<in> set after. reports_air x y z a) \<longrightarrow> promise_state (run after s') p = Fulfilled)
       \<and> ((\<forall>a \<in> set after. \<not> changes_block x y z a) \<longrightarrow> promise_state (run after s') p = Pending)"
proof -
  have "s' = snd (mineBlock x y z s)" and "p = fst (mineBlock x y z s)"
    using assms(2) by simp_all
  then have s': "s' = step (Call (C_mineBlock x y z)) s" and p: "p = next_promise s"
    by (simp_all add: mineBlock_def)
  have inv: "dig_inv s'"
    unfolding s' using assms(1) dig_inv_bot0 dig_inv_run dig_inv_step by blast
  have reg: "(p, x, y, z) \<in> set (listeners s')"
    using assms(2) mineBlock_registers [of s x y z] p by simp
  have air: "reports_air x y z a \<Longrightarrow> changes_block x y z a" for a
    by (cases "(x, y, z, a)" rule: reports_air.cases) auto
  show ?thesis
    using dig_completion [OF inv reg, of after] air by auto
qed

text \<open>A block change at (1, 2, 3) fulfils the dig at (1, 2, 3); one at (1, 2, 4) does not.\<close>

theorem dig_resolves_on_block_change_witness:
  "promise_state (run [PhysicsTick, Receive (P_block_change 1 2 3 0)]
      (snd (mineBlock 1 2 3 (run [Receive P_connect] bot0)))) 0 = Fulfilled
   \<and> promise_state (run [PhysicsTick, Receive (P_block_change 1 2 4 0), DigTimer]
      (snd (mineBlock 1 2 3 (run [Receive P_connect] bot0)))) 0 = Pending"
  using dig_resolves_on_block_change [of "run [Receive P_connect] bot0" "[Receive P_connect]"
      1 2 3 0 "snd (mineBlock 1 2 3 (run [Receive P_connect] bot0))"
      "[PhysicsTick, Receive (P_block_change 1 2 3 0)]"]
    dig_resolves_on_block_change [of "run [Receive P_connect] bot0" "[Receive P_connect]"
      1 2 3 0 "snd (mineBlock 1 2 3 (run [Receive P_connect] bot0))"
      "[PhysicsTick, Receive (P_block_change 1 2 4 0), DigTimer]"]
  by (simp add: mineBlock_def bot0_def bot_emit_def)

text \<open>
  Claim C1 as stated fails: with no block change, the dig is still pending after its only
  timer has fired and a tick has passed, its listener is still registered and no timer is
  left that could end it.
\<close>

theorem dig_never_times_out_counterexample:
  "promise_state (run [Call (C_mineBlock 1 2 3), DigTimer, PhysicsTick, CombatTick] bot0) 0 = Pending
   \<and> listeners (run [Call (C_mineBlock 1 2 3), DigTimer, PhysicsTick, CombatTick] bot0) = [(0, 1, 2, 3)]
   \<and> dig_timers (run [Call (C_mineBlock 1 2 3), DigTimer, PhysicsTick, CombatTick] bot0) = []"
  by (simp add: promise_state_def mineBlock_def dig_timeout_def client_write_def bot0_def
      Physics_update_def Combat_update_def)

text \<open>
  Claim C2, as the code has it. A second \<^verbatim>\<open>mineBlock\<close> on coordinates that a pending dig
  waits for does not fail: it gets a promise of its own, its listener is registered after
  the others and its start-dig command is written. The first dig is untouched: whatever
  happens afterwards, its promise is in the state it would be in without the second dig,
  and the two promises are fulfilled together: both are fulfilled once a block change at the
  coordinates that reports air has arrived, and both are pending as long as no block change
  at the coordinates has arrived.
\<close>

theorem second_dig_is_registered:
  assumes "s = run before bot0" and "(p, x, y, z) \<in> set (listeners s)"
    and "mineBlock x y z s = (q, s')"
  shows "q \<noteq> p
       \<and> listeners s' = listeners s @ [(q, x, y, z)]
       \<and> written s' = written s @ [W_block_dig 0 (Vec3 x y z) 1]
       \<and> promise_state s' q = Pending
       \<and> promise_state (run after s') p = promise_state (run after s) p
       \<and> promise_state (run after s') q = promise_state (run after s') p
       \<and> ((\<exists>a \<in> set after. reports_air x y z a) \<longrightarrow>
            promise_state (run after s') p = Fulfilled
            \<and> promise_state (run after s') q = Fulfilled)
       \<and> ((\<forall>a \<in> set after. \<not> changes_block x y z a) \<longrightarrow>
            promise_state (run after s') p = Pending
            \<and> promise_state (run after s') q = Pending)"
proof -
  have "s' = snd (mineBlock x y z s)" and "q = fst (mineBlock x y z s)"
    using assms(3) by simp_all
  then have s': "s' = step (Call (C_mineBlock x y z)) s" and q: "q = next_promise s"
    by (simp_all add: mineBlock_def)
  have inv: "dig_inv s"
    using assms(1) dig_inv_bot0 dig_inv_run by blast
  have inv': "dig_inv s'"
    unfolding s' using inv by (rule dig_inv_step)
  have qp: "q \<noteq> p"
    using inv assms(2) q by (auto simp add: dig_inv_def)
  have ls: "listeners s' = listeners s @ [(q, x, y, z)]"
    using s' q by (simp add: mineBlock_listeners)
  have w: "written s' = written s @ [W_block_dig 0 (Vec3 x y z) 1]"
    using s' by (simp add: mineBlock_def client_write_def)
  have "q \<notin> set (fulfilled s')"
    using inv' ls listener_not_fulfilled [of s' q x y z] by simp
  then have pend: "promise_state s' q = Pending"
    by (simp add: promise_state_def)
  have regp: "(p, x, y, z) \<in> set (listeners s')" and regq: "(q, x, y, z) \<in> set (listeners s')"
    using ls assms(2) by simp_all
  have "promise_state (run after s') p = promise_state (run after s) p"
    using dig_completion [OF inv' regp, of after] dig_completion [OF inv assms(2), of after]
    by simp
  moreover have "promise_state (run after s') q = promise_state (run after s') p"
    using dig_completion [OF inv' regp, of after] dig_completion [OF inv' regq, of after]
    by simp
  moreover have air: "reports_air x y z a \<Longrightarrow> changes_block x y z a" for a
    by (cases "(x, y, z, a)" rule: reports_air.cases) auto
  have "(\<exists>a \<in> set after. reports_air x y z a) \<longrightarrow>
          promise_state (run after s') p = Fulfilled
          \<and> promise_state (run after s') q = Fulfilled"
    using dig_completion [OF inv' regp, of after] dig_completion [OF inv' regq, of after] air
    by auto
  moreover have "(\<forall>a \<in> set after. \<not> changes_block x y z a) \<longrightarrow>
          promise_state (run after s') p = Pending
          \<and> promise_state (run after s') q = Pending"
    using dig_completion [OF inv' regp, of after] dig_completion [OF inv' regq, of after]
    by auto
  ultimately show ?thesis using qp ls w pend by simp
qed

text \<open>Two digs at (1, 2, 3): a block change to air there fulfils both, the timer of a dig
  fulfils neither.\<close>

theorem second_dig_is_registered_witness:
  "(1::nat) \<noteq> 0
   \<and> listeners (snd (mineBlock 1 2 3 (run [Call (C_mineBlock 1 2 3)] bot0)))
       = [(0, 1, 2, 3), (1, 1, 2, 3)]
   \<and> promise_state (run [Receive (P_block_change 1 2 3 0)]
        (snd (mineBlock 1 2 3 (run [Call (C_mineBlock 1 2 3)] bot0)))) 0
       = promise_state (run [Receive (P_block_change 1 2 3 0)]
           (run [Call (C_mineBlock 1 2 3)] bot0)) 0
   \<and> promise_state (run [Receive (P_block_change 1 2 3 0)]
        (snd (mineBlock 1 2 3 (run [Call (C_mineBlock 1 2 3)] bot0)))) 0 = Fulfilled
   \<and> promise_state (run [Receive (P_block_change 1 2 3 0)]
        (snd (mineBlock 1 2 3 (run [Call (C_mineBlock 1 2 3)] bot0)))) 1 = Fulfilled
   \<and> promise_state (run [DigTimer]
        (snd (mineBlock 1 2 3 (run [Call (C_mineBlock 1 2 3)] bot0)))) 0 = Pending
   \<and> promise_state (run [DigTimer]
        (snd (mineBlock 1 2 3 (run [Call (C_mineBlock 1 2 3)] bot0)))) 1 = Pending"
proof -
  have active: "(0, 1, 2, 3) \<in> set (listeners (run [Call (C_mineBlock 1 2 3)] bot0))"
    by (simp add: mineBlock_def bot0_def client_write_def)
  have second: "mineBlock 1 2 3 (run [Call (C_mineBlock 1 2 3)] bot0)
                  = (1, snd (mineBlock 1 2 3 (run [Call (C_mineBlock 1 2 3)] bot0)))"
    by (simp add: mineBlock_def bot0_def client_write_def)
  have air: "\<exists>a \<in> set [Receive (P_block_change 1 2 3 0)]. reports_air 1 2 3 a"
    by simp
  have quiet: "\<forall>a \<in> set [DigTimer]. \<not> changes_block 1 2 3 a"
    by simp
  have ls: "listeners (snd (mineBlock 1 2 3 (run [Call (C_mineBlock 1 2 3)] bot0)))
              = [(0, 1, 2, 3), (1, 1, 2, 3)]"
    by (simp add: mineBlock_def bot0_def client_write_def)
  note changed = second_dig_is_registered [OF refl active second,
      where after = "[Receive (P_block_change 1 2 3 0)]"]
  note timed = second_dig_is_registered [OF refl active second, where after = "[DigTimer]"]
  have distinct: "(1::nat) \<noteq> 0"
    by simp
  have same: "promise_state (run [Receive (P_block_change 1 2 3 0)]
        (snd (mineBlock 1 2 3 (run [Call (C_mineBlock 1 2 3)] bot0)))) 0
       = promise_state (run [Receive (P_block_change 1 2 3 0)]
           (run [Call (C_mineBlock 1 2 3)] bot0)) 0"
    using changed by blast
  have both: "promise_state (run [Receive (P_block_change 1 2 3 0)]
        (snd (mineBlock 1 2 3 (run [Call (C_mineBlock 1 2 3)] bot0)))) 0 = Fulfilled
     \<and> promise_state (run [Receive (P_block_change 1 2 3 0)]
        (snd (mineBlock 1 2 3 (run [Call (C_mineBlock 1 2 3)] bot0)))) 1 = Fulfilled"
    using changed air by blast
  have neither: "promise_state (run [DigTimer]
        (snd (mineBlock 1 2 3 (run [Call (C_mineBlock 1 2 3)] bot0)))) 0 = Pending
     \<and> promise_state (run [DigTimer]
        (snd (mineBlock 1 2 3 (run [Call (C_mineBlock 1 2 3)] bot0)))) 1 = Pending"
    using timed quiet by blast
  show ?thesis
    using distinct ls same both neither by blast
qed

text \<open>
  Claim C2 as stated fails: the second dig on the same coordinates is registered, its
  start-dig command is sent, and the next block change there fulfils its promise.
\<close>

theorem second_dig_accepted_counterexample:
  "listeners (run [Call (C_mineBlock 1 2 3), Call (C_mineBlock 1 2 3)] bot0)
     = [(0, 1, 2, 3), (1, 1, 2, 3)]
   \<and> written (run [Call (C_mineBlock 1 2 3), Call (C_mineBlock 1 2 3)] bot0)
     = [W_block_dig 0 (Vec3 1 2 3) 1, W_block_dig 0 (Vec3 1 2 3) 1]
   \<and> promise_state (run [Call (C_mineBlock 1 2 3), Call (C_mineBlock 1 2 3),
        Receive (P_block_change 1 2 3 0)] bot0) 1 = Fulfilled"
  by (simp add: promise_state_def mineBlock_def client_write_def bot0_def
      emit_blockUpdate_def bot_emit_def listens_for_def)

subsection \<open>The attack cooldown without a target\<close>

text \<open>
  Claim C4 at a failing input: the bot is connected, has attacked once (the attack cooldown
  is 10) and has stopped. The next tick, the physics callback and the combat callback,
  leaves the attack cooldown at 10.
\<close>

theorem attack_cooldown_stalls_without_target:
  "is_connected (run stalled bot0)
   \<and> attackCooldown (combat (run stalled bot0)) = 10
   \<and> attackCooldown (combat (tick (run stalled bot0))) = 10"
  by (simp add: stalled_def bot0_def bot_emit_def on_spawn_entity_def attackEntity_def
      deref_def lookAt_def attack_def client_write_def vec3_minus_def Math_atan2_def
      Combat_update_def vec3_distanceTo_def stop_def tick_def Physics_update_def
      sendPositionUpdate_def Let_def)

subsection \<open>Destroyed entities\<close>

lemma tracker_Physics_update: "tracker (Physics_update s) = tracker s"
  by (simp add: Physics_update_def sendPositionUpdate_def client_write_def Let_def)

lemma tracker_Combat_update: "tracker (Combat_update s) = tracker s"
  by (simp add: Combat_update_def lookAt_def move_def attack_def
      client_write_def Let_def split: option.splits)

lemma tracker_dig_timeout: "tracker (dig_timeout s) = tracker s"
  by (simp add: dig_timeout_def client_write_def split: list.splits)

lemma tracker_attackEntity: "tracker (attackEntity a s) = tracker s"
  by (simp add: attackEntity_def lookAt_def attack_def client_write_def
      Let_def split: option.splits)

lemma tracker_packet: "tracker (on_packet pk s) = tracker_op (Receive pk) (tracker s)"
  by (cases pk) (simp_all add: bot_emit_def emit_blockUpdate_def Let_def)

lemma tracker_call: "tracker (do_call c s) = tracker_op (Call c) (tracker s)"
proof (cases c)
  case (C_craft itemName cnt)
  then show ?thesis
    using only_writes_fields(3) [OF craft_only_writes [of s itemName cnt]] by simp
next
  case (C_attackNearestEntity types maxDistance)
  then show ?thesis
    by (simp add: attackNearestEntity_def tracker_attackEntity split: option.splits)
qed (simp_all add: tracker_attackEntity,
     simp_all add: chat_def lookAt_def attack_def placeBlock_def mineBlock_def
       disconnect_def selectSlot_def moveItem_def dropItem_def jump_def move_def
       setCraftingTablePosition_def stop_def client_write_def Let_def)

lemma tracker_step: "tracker (step a s) = tracker_op a (tracker s)"
  by (cases a)
    (simp_all add: tracker_packet tracker_call tracker_Physics_update tracker_Combat_update
      tracker_dig_timeout del: on_packet.simps do_call.simps)

lemma set_update_subset: "set (AList.update k v al) \<subseteq> insert (k, v) (set al)"
  by (induction al) auto

lemma set_delete: "set (AList.delete k al) = {p \<in> set al. fst p \<noteq> k}"
  by (auto simp add: AList.delete_eq)

lemma destroy_entities:
  "set (entities (on_entity_destroy ids tr)) = {p \<in> set (entities tr). fst p \<notin> set ids}"
  and destroy_players:
  "set (players (on_entity_destroy ids tr)) = {p \<in> set (players tr). fst p \<notin> set ids}"
  and destroy_heap: "heap (on_entity_destroy ids tr) = heap tr"
  by (induction ids arbitrary: tr) (auto simp add: destroy_one_def set_delete)

lemma tracker_inv_updateMetadata: "tracker_inv tr \<Longrightarrow> tracker_inv (updateMetadata entityId md tr)"
  by (auto simp add: tracker_inv_def updateMetadata_def deref_def nth_list_update
      split: option.splits if_splits)

lemma tracker_inv_entity_move: "tracker_inv tr \<Longrightarrow> tracker_inv (on_entity_move entityId dX dY dZ tr)"
  by (auto simp add: tracker_inv_def on_entity_move_def deref_def nth_list_update
      split: option.splits if_splits)

lemma tracker_inv_spawnI:
  assumes inv: "tracker_inv tr" and h: "heap tr' = heap tr @ [e]" and e: "ent_id e = k"
    and es: "set (entities tr') \<subseteq> insert (k, length (heap tr)) (set (entities tr))"
    and ps: "set (players tr') \<subseteq> insert (k, length (heap tr)) (set (players tr))"
  shows "tracker_inv tr'"
  unfolding tracker_inv_def
proof (intro ballI, clarify)
  fix k' a
  assume "(k', a) \<in> set (entities tr') \<union> set (players tr')"
  then consider "(k', a) = (k, length (heap tr))"
    | "(k', a) \<in> set (entities tr) \<union> set (players tr)"
    using es ps by blast
  then show "a < length (heap tr') \<and> ent_id (heap tr' ! a) = k'"
  proof cases
    case 1
    then show ?thesis using h e by simp
  next
    case 2
    then have "a < length (heap tr) \<and> ent_id (heap tr ! a) = k'"
      using inv unfolding tracker_inv_def by blast
    then show ?thesis using h by (simp add: nth_append)
  qed
qed

lemma tracker_inv_spawn_entity:
  "tracker_inv tr \<Longrightarrow> tracker_inv (on_spawn_entity entityId ty pos vel yw pt tr)"
  using tracker_inv_spawnI [of tr "on_spawn_entity entityId ty pos vel yw pt tr"
      "last (heap (on_spawn_entity entityId ty pos vel yw pt tr))" entityId]
  by (simp add: on_spawn_entity_def set_update_subset subset_insertI2)

lemma tracker_inv_spawn_player:
  "tracker_inv tr \<Longrightarrow> tracker_inv (on_spawn_player entityId uuid nm pos yw pt tr)"
  using tracker_inv_spawnI [of tr "on_spawn_player entityId uuid nm pos yw pt tr"
      "last (heap (on_spawn_player entityId uuid nm pos yw pt tr))" entityId]
  by (simp add: on_spawn_player_def set_update_subset)

lemma tracker_inv_destroy: "tracker_inv tr \<Longrightarrow> tracker_inv (on_entity_destroy ids tr)"
  by (auto simp add: tracker_inv_def destroy_entities destroy_players destroy_heap)

lemma tracker_inv_op: "tracker_inv tr \<Longrightarrow> tracker_inv (tracker_op a tr)"
  by (cases "(a, tr)" rule: tracker_op.cases)
    (simp_all add: tracker_inv_updateMetadata tracker_inv_entity_move tracker_inv_spawn_entity
      tracker_inv_spawn_player tracker_inv_destroy)

lemma tracker_inv_run: "tracker_inv (tracker s) \<Longrightarrow> tracker_inv (tracker (run as s))"
  by (induction as arbitrary: s) (simp_all add: tracker_step tracker_inv_op del: step.simps)

lemma tracker_inv_bot0: "tracker_inv (tracker bot0)"
  by (simp add: tracker_inv_def bot0_def)

lemma gone_updateMetadata:
  "gone a tr \<Longrightarrow> gone a (updateMetadata entityId md tr)
     \<and> deref (heap (updateMetadata entityId md tr)) a = deref (heap tr) a"
  by (auto simp add: gone_def updateMetadata_def deref_def nth_list_update
      split: option.splits if_splits dest!: map_of_SomeD) force+

lemma gone_entity_move:
  "gone a tr \<Longrightarrow> gone a (on_entity_move entityId dX dY dZ tr)
     \<and> deref (heap (on_entity_move entityId dX dY dZ tr)) a = deref (heap tr) a"
  by (auto simp add: gone_def on_entity_move_def deref_def nth_list_update
      split: option.splits if_splits dest!: map_of_SomeD) force+

lemma gone_spawn_entity:
  "gone a tr \<Longrightarrow> gone a (on_spawn_entity entityId ty pos vel yw pt tr)
     \<and> deref (heap (on_spawn_entity entityId ty pos vel yw pt tr)) a = deref (heap tr) a"
  using set_update_subset [of entityId "length (heap tr)" "entities tr"]
  by (auto simp add: gone_def on_spawn_entity_def deref_def nth_append)

lemma gone_spawn_player:
  "gone a tr \<Longrightarrow> gone a (on_spawn_player entityId uuid nm pos yw pt tr)
     \<and> deref (heap (on_spawn_player entityId uuid nm pos yw pt tr)) a = deref (heap tr) a"
  using set_update_subset [of entityId "length (heap tr)" "entities tr"]
    set_update_subset [of entityId "length (heap tr)" "players tr"]
  by (auto simp add: gone_def on_spawn_player_def deref_def nth_append)

lemma gone_destroy:
  "gone a tr \<Longrightarrow> gone a (on_entity_destroy ids tr)
     \<and> deref (heap (on_entity_destroy ids tr)) a = deref (heap tr) a"
  by (auto simp add: gone_def destroy_entities destroy_players destroy_heap)

lemma gone_op:
  "gone a tr \<Longrightarrow> gone a (tracker_op act tr) \<and> deref (heap (tracker_op act tr)) a = deref (heap tr) a"
  by (cases "(act, tr)" rule: tracker_op.cases)
    (simp_all add: gone_updateMetadata gone_entity_move gone_spawn_entity gone_spawn_player
      gone_destroy)

lemma gone_run:
  "gone a (tracker s) \<Longrightarrow>
     gone a (tracker (run as s)) \<and> deref (heap (tracker (run as s))) a = deref (heap (tracker s)) a"
proof (induction as arbitrary: s)
  case Nil
  then show ?case by simp
next
  case (Cons act as)
  have "gone a (tracker (step act s))"
    and "deref (heap (tracker (step act s))) a = deref (heap (tracker s)) a"
    using gone_op [OF Cons.prems, of act] by (simp_all add: tracker_step)
  then show ?case using Cons.IH [of "step act s"] by (simp del: step.simps)
qed

lemma nearest_loop_result:
  "nearest_loop h p types as nearest nearestDistance = Some r \<Longrightarrow> r \<in> set as \<or> nearest = Some r"
  by (induction as arbitrary: nearest nearestDistance)
    (auto split: option.splits if_splits)

lemma gone_not_found:
  assumes "gone a (tracker s)"
  shows "findNearestEntity types maxDistance s \<noteq> Some a"
    and "findNearestPlayer maxDistance s \<noteq> Some a"
  using assms nearest_loop_result [of "heap (tracker s)" "position s" "Some types"
      "map snd (entities (tracker s))" None maxDistance a]
    nearest_loop_result [of "heap (tracker s)" "position s" None
      "map snd (players (tracker s))" None maxDistance a]
  by (auto simp add: gone_def findNearestEntity_def findNearestPlayer_def)

lemma destroyed_gone:
  assumes "tracker_inv tr" and "(k, a) \<in> set (entities tr) \<union> set (players tr)" and "k \<in> set ids"
  shows "gone a (on_entity_destroy ids tr)"
proof -
  have a: "a < length (heap tr)" and id: "ent_id (heap tr ! a) = k"
    using assms(1,2) unfolding tracker_inv_def by blast+
  have same: "k' = k" if "(k', a) \<in> set (entities tr) \<union> set (players tr)" for k'
    using that assms(1) id unfolding tracker_inv_def by blast
  have "a \<notin> snd ` set (entities (on_entity_destroy ids tr))"
    using same assms(3) by (force simp add: destroy_entities)
  moreover have "a \<notin> snd ` set (players (on_entity_destroy ids tr))"
    using same assms(3) by (force simp add: destroy_players)
  ultimately show ?thesis
    using a by (simp add: gone_def destroy_heap)
qed

lemma untracked_iff:
  "untracked k tr = (k \<notin> fst ` set (entities tr) \<and> k \<notin> fst ` set (players tr))"
  by (simp add: untracked_def map_of_eq_None_iff)

lemma untracked_destroy: "k \<in> set ids \<Longrightarrow> untracked k (on_entity_destroy ids tr)"
  by (auto simp add: untracked_iff destroy_entities destroy_players)

lemma untracked_op: "untracked k tr \<Longrightarrow> \<not> spawns k act \<Longrightarrow> untracked k (tracker_op act tr)"
proof (cases "(act, tr)" rule: tracker_op.cases)
  case (4 entityIds tr')
  then show "untracked k tr \<Longrightarrow> ?thesis"
    by (auto simp add: untracked_iff destroy_entities destroy_players)
qed (auto simp add: untracked_def updateMetadata_def on_entity_move_def on_spawn_entity_def
      on_spawn_player_def update_conv' split: option.splits)

lemma untracked_run:
  "untracked k (tracker s) \<Longrightarrow> \<forall>act \<in> set as. \<not> spawns k act \<Longrightarrow> untracked k (tracker (run as s))"
  by (induction as arbitrary: s) (simp_all add: tracker_step untracked_op del: step.simps)

lemma untracked_metadata:
  "untracked k (tracker s) \<Longrightarrow> on_packet (P_entity_metadata k md) s = s"
  by (simp add: untracked_def updateMetadata_def)

text \<open>
  Claim C8. The bot is in any state it can reach and a destroy packet for the id \<open>k\<close>
  arrives. From then on, until a spawn packet for \<open>k\<close> arrives, neither map has the id and a
  metadata packet for it changes nothing. And whatever happens afterwards, a reuse of the id
  included: an object the maps resolved \<open>k\<close> to before the packet is never the result of
  \<^verbatim>\<open>findNearestEntity\<close> or \<^verbatim>\<open>findNearestPlayer\<close>, and no later packet changes it.
\<close>

theorem destroyed_entity_is_not_resolved:
  assumes "s = run before bot0" and "k \<in> set ids"
    and "s1 = on_packet (P_entity_destroy ids) s"
  shows "((\<forall>act \<in> set after. \<not> spawns k act) \<longrightarrow>
            map_of (entities (tracker (run after s1))) k = None
            \<and> map_of (players (tracker (run after s1))) k = None
            \<and> on_packet (P_entity_metadata k md) (run after s1) = run after s1)
       \<and> (tracked_as s k a \<longrightarrow>
            findNearestEntity types maxDistance (run after s1) \<noteq> Some a
            \<and> findNearestPlayer maxDistance (run after s1) \<noteq> Some a
            \<and> deref (heap (tracker (run after s1))) a = deref (heap (tracker s)) a)"
proof -
  have t1: "tracker s1 = on_entity_destroy ids (tracker s)"
    using assms(3) by simp
  have u: "untracked k (tracker s1)"
    using assms(2) t1 by (simp add: untracked_destroy)
  have inv: "tracker_inv (tracker s)"
    using assms(1) tracker_inv_bot0 tracker_inv_run by blast
  have first: "map_of (entities (tracker (run after s1))) k = None
       \<and> map_of (players (tracker (run after s1))) k = None
       \<and> on_packet (P_entity_metadata k md) (run after s1) = run after s1"
    if "\<forall>act \<in> set after. \<not> spawns k act"
    using untracked_run [OF u that] untracked_metadata [of k "run after s1" md]
    by (simp add: untracked_def)
  have second: "findNearestEntity types maxDistance (run after s1) \<noteq> Some a
       \<and> findNearestPlayer maxDistance (run after s1) \<noteq> Some a
       \<and> deref (heap (tracker (run after s1))) a = deref (heap (tracker s)) a"
    if "tracked_as s k a"
  proof -
    have "(k, a) \<in> set (entities (tracker s)) \<union> set (players (tracker s))"
      using that by (auto simp add: tracked_as_def dest: map_of_SomeD)
    then have g: "gone a (tracker s1)"
      using destroyed_gone [OF inv _ assms(2)] t1 by simp
    have "heap (tracker s1) = heap (tracker s)"
      using t1 by (simp add: destroy_heap)
    then show ?thesis
      using gone_run [OF g, of after] gone_not_found [of a "run after s1"] by simp
  qed
  show ?thesis using first second by blast
qed

text \<open>
  A player with the id 7 is destroyed and a zombie is spawned with the id 7: the nearest
  zombie is the new object, not the player's.
\<close>

theorem destroyed_entity_is_not_resolved_witness:
  "tracked_as (run steve_joins bot0) 7 0
   \<and> map_of (entities (tracker (run [PhysicsTick]
        (on_packet (P_entity_destroy [7]) (run steve_joins bot0))))) 7 = None
   \<and> map_of (players (tracker (run [PhysicsTick]
        (on_packet (P_entity_destroy [7]) (run steve_joins bot0))))) 7 = None
   \<and> findNearestEntity [''zombie''] None
        (run zombie_reuses_id (on_packet (P_entity_destroy [7]) (run steve_joins bot0))) \<noteq> Some 0
   \<and> findNearestPlayer None
        (run zombie_reuses_id (on_packet (P_entity_destroy [7]) (run steve_joins bot0))) \<noteq> Some 0
   \<and> findNearestEntity [''zombie''] None
        (run zombie_reuses_id (on_packet (P_entity_destroy [7]) (run steve_joins bot0))) = Some 1"
proof -
  have found: "findNearestEntity [''zombie''] None
        (run zombie_reuses_id (on_packet (P_entity_destroy [7]) (run steve_joins bot0))) = Some 1"
    by (simp add: steve_joins_def zombie_reuses_id_def bot0_def on_spawn_player_def
        on_spawn_entity_def destroy_one_def findNearestEntity_def deref_def less_dist_def)
  have tr: "tracked_as (run steve_joins bot0) 7 0"
    by (simp add: steve_joins_def tracked_as_def bot0_def on_spawn_player_def)
  have quiet: "\<forall>act \<in> set [PhysicsTick]. \<not> spawns 7 act"
    by simp
  have k: "(7::int) \<in> set [7]"
    by simp
  show ?thesis
    using tr quiet found
      destroyed_entity_is_not_resolved [OF refl k refl,
        where before = steve_joins and after = "[PhysicsTick]"]
      destroyed_entity_is_not_resolved [OF refl k refl,
        where before = steve_joins and after = zombie_reuses_id and a = 0
          and types = "[''zombie'']" and maxDistance = None]
    by blast
qed

end
